theory Spec2Isabelle
  imports Complex_Main "HOL-Library.Word"
begin

unbundle bit_operations_syntax

section \<open>JavaScript strings and number rendering\<close>

text \<open>
  A JavaScript string is a sequence of UTF-16 code units; \<open>s.length\<close> counts code units
  and \<open>s.charCodeAt(i)\<close> reads one. The model keeps that: a string is a list of 16-bit
  words. \<open>js\<close> embeds an ASCII literal.
\<close>

type_synonym jsstring = "16 word list"

definition js :: "string \<Rightarrow> jsstring" where
  "js s = map of_char s"

text \<open>\<open>String.prototype.padStart(targetLength, padString)\<close> with a one-character pad.\<close>

definition padStart :: "nat \<Rightarrow> 16 word \<Rightarrow> jsstring \<Rightarrow> jsstring" where
  "padStart n c s = replicate (n - length s) c @ s"

text \<open>
  \<open>Number.prototype.toString()\<close> on an integer (a string length, a millisecond clock
  reading): its decimal digits, with a minus sign for a negative value.
\<close>

fun toString10 :: "nat \<Rightarrow> jsstring" where
  "toString10 n =
     (if n < 10 then [of_nat (48 + n)]
      else toString10 (n div 10) @ [of_nat (48 + n mod 10)])"

declare toString10.simps [simp del]

definition intToString10 :: "int \<Rightarrow> jsstring" where
  "intToString10 i = (if i < 0 then 45 # toString10 (nat (- i)) else toString10 (nat i))"

text \<open>
  \<open>Number.prototype.toString(16)\<close> on an integer: lower-case hexadecimal digits, with a
  minus sign for a negative value.
\<close>

definition hexDigit :: "nat \<Rightarrow> 16 word" where
  "hexDigit d = (if d < 10 then of_nat (48 + d) else of_nat (87 + d))"

fun natToString16 :: "nat \<Rightarrow> jsstring" where
  "natToString16 n =
     (if n < 16 then [hexDigit n]
      else natToString16 (n div 16) @ [hexDigit (n mod 16)])"

declare natToString16.simps [simp del]

definition toString16 :: "int \<Rightarrow> jsstring" where
  "toString16 i = (if i < 0 then 45 # natToString16 (nat (- i)) else natToString16 (nat i))"

text \<open>
  \<open>String.prototype.toUpperCase()\<close>. The codec applies it to hexadecimal digits and to
  the currency symbol, which it then compares with \<open>'USD'\<close>. The model maps the ASCII
  letters, and the long s (U+017F), whose upper case is \<open>S\<close>; every other code unit
  is left alone. (Unicode's other mappings produce no \<open>U\<close>, \<open>S\<close> next to
  \<open>D\<close>, or hexadecimal digit, so they change neither use.)
\<close>

definition upperChar :: "16 word \<Rightarrow> 16 word" where
  "upperChar c = (if 97 \<le> c \<and> c \<le> 122 then c - 32 else if c = 0x17F then 83 else c)"

definition toUpperCase :: "jsstring \<Rightarrow> jsstring" where
  "toUpperCase s = map upperChar s"

section \<open>EMV constants\<close>

definition DEFAULT_DYNAMIC_QR :: jsstring where "DEFAULT_DYNAMIC_QR = js ''010212''"
definition DEFAULT_STATIC_QR :: jsstring where "DEFAULT_STATIC_QR = js ''010211''"
definition TRANSACTION_CURRENCY_USD :: jsstring where "TRANSACTION_CURRENCY_USD = js ''840''"
definition TRANSACTION_CURRENCY_KHR :: jsstring where "TRANSACTION_CURRENCY_KHR = js ''116''"
definition TRANSACTION_CURRENCY :: jsstring where "TRANSACTION_CURRENCY = js ''53''"
definition PAYLOAD_FORMAT_INDICATOR :: jsstring where "PAYLOAD_FORMAT_INDICATOR = js ''00''"
definition DEFAULT_PAYLOAD_FORMAT_INDICATOR :: jsstring where
  "DEFAULT_PAYLOAD_FORMAT_INDICATOR = js ''01''"
definition POINT_OF_INITIATION_METHOD :: jsstring where "POINT_OF_INITIATION_METHOD = js ''01''"
definition STATIC_QR :: jsstring where "STATIC_QR = js ''11''"
definition DYNAMIC_QR :: jsstring where "DYNAMIC_QR = js ''12''"
definition MERCHANT_NAME :: jsstring where "MERCHANT_NAME = js ''59''"
definition MERCHANT_CITY :: jsstring where "MERCHANT_CITY = js ''60''"
definition MERCHANT_CATEGORY_CODE :: jsstring where "MERCHANT_CATEGORY_CODE = js ''52''"
definition DEFAULT_MERCHANT_CATEGORY_CODE :: jsstring where
  "DEFAULT_MERCHANT_CATEGORY_CODE = js ''5999''"
definition COUNTRY_CODE :: jsstring where "COUNTRY_CODE = js ''58''"
definition DEFAULT_COUNTRY_CODE :: jsstring where "DEFAULT_COUNTRY_CODE = js ''KH''"
definition MERCHANT_ACCOUNT_INFORMATION_INDIVIDUAL :: jsstring where
  "MERCHANT_ACCOUNT_INFORMATION_INDIVIDUAL = js ''29''"
definition TRANSACTION_AMOUNT :: jsstring where "TRANSACTION_AMOUNT = js ''54''"
definition ADDITION_DATA_TAG :: jsstring where "ADDITION_DATA_TAG = js ''62''"
definition BILLNUMBER_TAG :: jsstring where "BILLNUMBER_TAG = js ''01''"
definition ADDITION_DATA_FIELD_MOBILE_NUMBER :: jsstring where
  "ADDITION_DATA_FIELD_MOBILE_NUMBER = js ''02''"
definition STORE_LABEL :: jsstring where "STORE_LABEL = js ''03''"
definition TERMINAL_LABEL :: jsstring where "TERMINAL_LABEL = js ''07''"
definition TIMESTAMP_TAG :: jsstring where "TIMESTAMP_TAG = js ''99''"
definition CRC :: jsstring where "CRC = js ''63''"
definition CRC_LENGTH :: jsstring where "CRC_LENGTH = js ''04''"
definition DEFAULT_CRC_TAG :: jsstring where "DEFAULT_CRC_TAG = js ''6304''"

definition INVALID_LENGTH_MERCHANT_NAME :: nat where "INVALID_LENGTH_MERCHANT_NAME = 25"
definition INVALID_LENGTH_BAKONG_ACCOUNT :: nat where "INVALID_LENGTH_BAKONG_ACCOUNT = 32"
definition INVALID_LENGTH_MERCHANT_CITY :: nat where "INVALID_LENGTH_MERCHANT_CITY = 15"
definition INVALID_LENGTH_TRANSACTION_AMOUNT :: nat where
  "INVALID_LENGTH_TRANSACTION_AMOUNT = 14"
definition INVALID_LENGTH_BILL_NUMBER :: nat where "INVALID_LENGTH_BILL_NUMBER = 25"
definition INVALID_LENGTH_STORE_LABEL :: nat where "INVALID_LENGTH_STORE_LABEL = 25"
definition INVALID_LENGTH_TERMINAL_LABEL :: nat where "INVALID_LENGTH_TERMINAL_LABEL = 25"
definition INVALID_LENGTH_MOBILE_NUMBER :: nat where "INVALID_LENGTH_MOBILE_NUMBER = 25"

section \<open>The CRC engine (\<open>BakongKHQR.generateCRC16\<close>)\<close>

text \<open>
  JavaScript's bitwise operators work on 32-bit integers, so the register \<open>crc\<close> is a
  32-bit word. One pass of the inner loop body:
  \<^verbatim>\<open>if (crc & 0x8000) { crc = (crc << 1) ^ polynomial; } else { crc <<= 1; } crc &= 0xFFFF;\<close>
\<close>

definition polynomial :: "32 word" where
  "polynomial = 0x1021"

definition crc_round :: "32 word \<Rightarrow> 32 word" where
  "crc_round crc =
     (if crc AND 0x8000 \<noteq> 0 then push_bit 1 crc XOR polynomial else push_bit 1 crc) AND 0xFFFF"

text \<open>The inner loop \<open>for (let j = 0; j < 8; j++)\<close>, as \<open>crc_rounds 8\<close>.\<close>

fun crc_rounds :: "nat \<Rightarrow> 32 word \<Rightarrow> 32 word" where
  "crc_rounds 0 crc = crc"
| "crc_rounds (Suc j) crc = crc_rounds j (crc_round crc)"

text \<open>The outer loop over the characters of \<open>data\<close>:
  \<open>crc ^= (data.charCodeAt(i) << 8)\<close>, then the eight rounds.\<close>

fun crc_loop :: "jsstring \<Rightarrow> 32 word \<Rightarrow> 32 word" where
  "crc_loop [] crc = crc"
| "crc_loop (ch # data) crc = crc_loop data (crc_rounds 8 (crc XOR push_bit 8 (ucast ch)))"

definition generateCRC16 :: "jsstring \<Rightarrow> jsstring" where
  "generateCRC16 data = padStart 4 48 (toUpperCase (toString16 (sint (crc_loop data 0xFFFF))))"

text \<open>\<open>BakongKHQR.crc\<close>: the checksum field for the payload so far.\<close>

definition crc :: "jsstring \<Rightarrow> jsstring" where
  "crc qrData = (let dataWithCrcTag = qrData @ DEFAULT_CRC_TAG;
                     crcValue = generateCRC16 dataWithCrcTag
                 in DEFAULT_CRC_TAG @ crcValue)"

subsection \<open>CRC-16/CCITT-FALSE as the specification words it\<close>

text \<open>
  A 16-bit register, initial value \<open>0xFFFF\<close>, polynomial \<open>0x1021\<close>; per character the
  code is XORed into the high byte, then eight rounds of shift left and conditional XOR
  with the polynomial; no reflection, no final XOR. On a 16-bit word the shift drops the
  vacated bit, which is the masking to 16 bits.
\<close>

definition spec_crc_round :: "16 word \<Rightarrow> 16 word" where
  "spec_crc_round r = (if bit r 15 then push_bit 1 r XOR 0x1021 else push_bit 1 r)"

fun spec_crc_rounds :: "nat \<Rightarrow> 16 word \<Rightarrow> 16 word" where
  "spec_crc_rounds 0 r = r"
| "spec_crc_rounds (Suc j) r = spec_crc_rounds j (spec_crc_round r)"

fun spec_crc_loop :: "jsstring \<Rightarrow> 16 word \<Rightarrow> 16 word" where
  "spec_crc_loop [] r = r"
| "spec_crc_loop (ch # data) r = spec_crc_loop data (spec_crc_rounds 8 (r XOR push_bit 8 ch))"

definition spec_crc16 :: "jsstring \<Rightarrow> 16 word" where
  "spec_crc16 data = spec_crc_loop data 0xFFFF"

text \<open>An upper-case hexadecimal digit, and the four digits of a 16-bit value.\<close>

definition spec_upperHexDigit :: "nat \<Rightarrow> 16 word" where
  "spec_upperHexDigit d = (if d < 10 then of_nat (48 + d) else of_nat (55 + d))"

definition spec_hex4 :: "16 word \<Rightarrow> jsstring" where
  "spec_hex4 r = (let n = unat r in
     [spec_upperHexDigit (n div 4096), spec_upperHexDigit (n div 256 mod 16),
      spec_upperHexDigit (n div 16 mod 16), spec_upperHexDigit (n mod 16)])"


section \<open>JavaScript numbers in the codec\<close>

text \<open>
  The amount is a JavaScript number. A finite number is modelled by its exact value, a
  rational; the three non-finite numbers are constructors of their own.
\<close>

datatype jsnumber = NaN | PosInfinity | NegInfinity | Num rat

text \<open>\<open>parseFloat\<close> applied to a number converts it to a string and parses it back,
  which returns the number.\<close>

definition parseFloat :: "jsnumber \<Rightarrow> jsnumber" where
  "parseFloat v = v"

text \<open>
  \<open>Number.prototype.toFixed(2)\<close> (ECMA-262): a non-finite number is rendered by name; a
  negative number gets a minus sign and is then treated as its absolute value; a value of
  at least \<open>10\<^sup>2\<^sup>1\<close> is rendered by the engine's \<open>Number::toString\<close>, which is not part
  of this repository and is the parameter \<open>numberToString\<close>; otherwise \<open>n\<close> is the
  integer closest to \<open>100 * x\<close> (the larger one of two), and the digits of \<open>n\<close>, padded
  to three, get a point before the last two.
\<close>

definition toFixed2 :: "(rat \<Rightarrow> jsstring) \<Rightarrow> jsnumber \<Rightarrow> jsstring" where
  "toFixed2 numberToString v =
     (case v of
        NaN \<Rightarrow> js ''NaN''
      | PosInfinity \<Rightarrow> js ''Infinity''
      | NegInfinity \<Rightarrow> js ''-Infinity''
      | Num x0 \<Rightarrow>
          (let s = (if x0 < 0 then js ''-'' else []);
               x = (if x0 < 0 then - x0 else x0)
           in if x \<ge> 10 ^ 21 then s @ numberToString x
              else
                (let n = nat \<lfloor>x * 100 + 1 / 2\<rfloor>;
                     m = toString10 n;
                     m = (if length m \<le> 2 then replicate (3 - length m) 48 @ m else m);
                     k = length m
                 in s @ take (k - 2) m @ js ''.'' @ drop (k - 2) m)))"

text \<open>
  \<open>amountStr.replace(/\.?0+$/, '')\<close>. \<open>matchHere s\<close>: the pattern matches the whole of
  \<open>s\<close>, that is, \<open>s\<close> is an optional point followed by one or more zeros up to the
  end of the string. \<open>replace\<close> removes the leftmost match.
\<close>

definition zeros :: "jsstring \<Rightarrow> bool" where
  "zeros s = (s \<noteq> [] \<and> list_all (\<lambda>c. c = 48) s)"

definition matchHere :: "jsstring \<Rightarrow> bool" where
  "matchHere s = (case s of [] \<Rightarrow> False | c # r \<Rightarrow> if c = 46 then zeros r else zeros s)"

fun replaceTrailingZeros :: "jsstring \<Rightarrow> jsstring" where
  "replaceTrailingZeros [] = []"
| "replaceTrailingZeros (c # r) =
     (if matchHere (c # r) then [] else c # replaceTrailingZeros r)"

section \<open>The TLV codec (\<open>BakongKHQR\<close>)\<close>

text \<open>
  \<open>validateLength\<close> throws
  \<^verbatim>\<open>Error(`${fieldName} cannot exceed ${maxLength} characters. Your input length: ${value.length} characters.`)\<close>;
  the error value keeps the three interpolated items: field name, ceiling, actual length.
\<close>

datatype codec_error = FieldTooLong jsstring nat nat

definition bindE :: "codec_error + 'a \<Rightarrow> ('a \<Rightarrow> codec_error + 'b) \<Rightarrow> codec_error + 'b" where
  "bindE r f = (case r of Inl e \<Rightarrow> Inl e | Inr v \<Rightarrow> f v)"

definition formatValue :: "jsstring \<Rightarrow> jsstring \<Rightarrow> jsstring" where
  "formatValue tag valueStr =
     (let len = padStart 2 48 (toString10 (length valueStr)) in tag @ len @ valueStr)"

definition validateLength :: "jsstring \<Rightarrow> nat \<Rightarrow> jsstring \<Rightarrow> codec_error + unit" where
  "validateLength val maxLength fieldName =
     (if length val > maxLength then Inl (FieldTooLong fieldName maxLength (length val))
      else Inr ())"

definition payloadFormatIndicator :: jsstring where
  "payloadFormatIndicator = formatValue PAYLOAD_FORMAT_INDICATOR DEFAULT_PAYLOAD_FORMAT_INDICATOR"

definition pointOfInitiation :: "bool \<Rightarrow> jsstring" where
  "pointOfInitiation isStatic =
     (let type = (if isStatic then STATIC_QR else DYNAMIC_QR)
      in formatValue POINT_OF_INITIATION_METHOD type)"

definition globalUniqueIdentifier :: "jsstring \<Rightarrow> codec_error + jsstring" where
  "globalUniqueIdentifier bankAccount =
     bindE (validateLength bankAccount INVALID_LENGTH_BAKONG_ACCOUNT (js ''Bank account''))
       (\<lambda>_. let accountInfo = formatValue PAYLOAD_FORMAT_INDICATOR bankAccount
            in Inr (formatValue MERCHANT_ACCOUNT_INFORMATION_INDIVIDUAL accountInfo))"

definition merchantCategoryCode :: jsstring where
  "merchantCategoryCode = formatValue MERCHANT_CATEGORY_CODE DEFAULT_MERCHANT_CATEGORY_CODE"

definition countryCode :: jsstring where
  "countryCode = formatValue COUNTRY_CODE DEFAULT_COUNTRY_CODE"

definition merchantName :: "jsstring \<Rightarrow> codec_error + jsstring" where
  "merchantName name =
     bindE (validateLength name INVALID_LENGTH_MERCHANT_NAME (js ''Merchant name''))
       (\<lambda>_. Inr (formatValue MERCHANT_NAME name))"

definition merchantCity :: "jsstring \<Rightarrow> codec_error + jsstring" where
  "merchantCity city =
     bindE (validateLength city INVALID_LENGTH_MERCHANT_CITY (js ''Merchant city''))
       (\<lambda>_. Inr (formatValue MERCHANT_CITY city))"

text \<open>\<open>timestamp()\<close> reads the clock; \<open>now\<close> is the value of \<open>Date.now()\<close>.\<close>

definition timestamp :: "int \<Rightarrow> jsstring" where
  "timestamp now =
     (let timestampMs = intToString10 now;
          lengthOfTimestamp = padStart 2 48 (toString10 (length timestampMs));
          languagePreference = js ''00'';
          result = languagePreference @ lengthOfTimestamp @ timestampMs;
          lengthResult = padStart 2 48 (toString10 (length result))
      in TIMESTAMP_TAG @ lengthResult @ result)"

text \<open>\<open>amount(value)\<close>; its local \<open>paddedAmountStr\<close> is a definition of its own.\<close>

definition paddedAmountStr :: "(rat \<Rightarrow> jsstring) \<Rightarrow> jsnumber \<Rightarrow> jsstring" where
  "paddedAmountStr numberToString val =
     (let amountStr = toFixed2 numberToString (parseFloat val);
          amountStr = replaceTrailingZeros amountStr
      in padStart 11 48 amountStr)"

definition amount :: "(rat \<Rightarrow> jsstring) \<Rightarrow> jsnumber \<Rightarrow> codec_error + jsstring" where
  "amount numberToString val =
     (let paddedAmountStr = paddedAmountStr numberToString val
      in bindE (validateLength paddedAmountStr INVALID_LENGTH_TRANSACTION_AMOUNT (js ''Amount''))
           (\<lambda>_. Inr (formatValue TRANSACTION_AMOUNT paddedAmountStr)))"

definition transactionCurrency :: "jsstring \<Rightarrow> jsstring" where
  "transactionCurrency currency =
     (let currencyCode = (if toUpperCase currency = js ''USD'' then TRANSACTION_CURRENCY_USD
                          else TRANSACTION_CURRENCY_KHR)
      in formatValue TRANSACTION_CURRENCY currencyCode)"

definition additionalDataField ::
  "jsstring \<Rightarrow> jsstring \<Rightarrow> jsstring \<Rightarrow> jsstring \<Rightarrow> codec_error + jsstring" where
  "additionalDataField storeLabel phoneNumber billNumber terminalLabel =
     bindE (validateLength billNumber INVALID_LENGTH_BILL_NUMBER (js ''Bill number'')) (\<lambda>_.
     bindE (validateLength phoneNumber INVALID_LENGTH_MOBILE_NUMBER (js ''Phone number'')) (\<lambda>_.
     bindE (validateLength storeLabel INVALID_LENGTH_STORE_LABEL (js ''Store label'')) (\<lambda>_.
     bindE (validateLength terminalLabel INVALID_LENGTH_TERMINAL_LABEL (js ''Terminal label'')) (\<lambda>_.
       let billNumberValue = formatValue BILLNUMBER_TAG billNumber;
           phoneNumberValue = formatValue ADDITION_DATA_FIELD_MOBILE_NUMBER phoneNumber;
           storeLabelValue = formatValue STORE_LABEL storeLabel;
           terminalLabelValue = formatValue TERMINAL_LABEL terminalLabel;
           combinedData = billNumberValue @ phoneNumberValue @ storeLabelValue @ terminalLabelValue
       in Inr (formatValue ADDITION_DATA_TAG combinedData)))))"

text \<open>The \<open>options\<close> object of \<open>createQR\<close>, with \<open>isStatic\<close> defaulting to false at
  the caller.\<close>

record options =
  opt_bankAccount :: jsstring
  opt_merchantName :: jsstring
  opt_merchantCity :: jsstring
  opt_amount :: jsnumber
  opt_currency :: jsstring
  opt_storeLabel :: jsstring
  opt_phoneNumber :: jsstring
  opt_billNumber :: jsstring
  opt_terminalLabel :: jsstring
  opt_isStatic :: bool

text \<open>\<open>createQR\<close>: \<open>qrData\<close> grows field by field, in the order of the source; the
  first validation that throws ends the call.\<close>

definition createQR :: "(rat \<Rightarrow> jsstring) \<Rightarrow> int \<Rightarrow> options \<Rightarrow> codec_error + jsstring" where
  "createQR numberToString now opts =
     (let qrData = [];
          qrData = qrData @ payloadFormatIndicator;
          qrData = qrData @ pointOfInitiation (opt_isStatic opts)
      in bindE (globalUniqueIdentifier (opt_bankAccount opts)) (\<lambda>f.
         let qrData = qrData @ f;
             qrData = qrData @ merchantCategoryCode;
             qrData = qrData @ countryCode
         in bindE (merchantName (opt_merchantName opts)) (\<lambda>f.
         let qrData = qrData @ f
         in bindE (merchantCity (opt_merchantCity opts)) (\<lambda>f.
         let qrData = qrData @ f;
             qrData = qrData @ timestamp now
         in bindE (if \<not> opt_isStatic opts
                   then bindE (amount numberToString (opt_amount opts)) (\<lambda>f. Inr (qrData @ f))
                   else Inr qrData) (\<lambda>qrData.
         let qrData = qrData @ transactionCurrency (opt_currency opts)
         in bindE (additionalDataField (opt_storeLabel opts) (opt_phoneNumber opts)
                     (opt_billNumber opts) (opt_terminalLabel opts)) (\<lambda>f.
         let qrData = qrData @ f;
             qrData = qrData @ crc qrData
         in Inr qrData))))))"

subsection \<open>The amount rule as the specification words it\<close>

text \<open>
  ``Strip trailing zeros and a trailing decimal point'': drop the zeros at the end, then a
  point if one is now last. ``Left-pad with 0 until the string reaches 11 characters''.
\<close>

definition spec_stripZeros :: "jsstring \<Rightarrow> jsstring" where
  "spec_stripZeros s =
     (let t = rev (dropWhile (\<lambda>c. c = 48) (rev s))
      in if t \<noteq> [] \<and> last t = 46 then butlast t else t)"

definition spec_amountValue :: "(rat \<Rightarrow> jsstring) \<Rightarrow> jsnumber \<Rightarrow> jsstring" where
  "spec_amountValue numberToString v =
     (let s = spec_stripZeros (toFixed2 numberToString v)
      in replicate (11 - length s) 48 @ s)"

subsection \<open>The payload as a sequence of fields\<close>

text \<open>
  The fields \<open>createQR\<close> appends before the checksum, in its order, as (tag, value):
  format indicator, point of initiation, merchant account (the identifier as a nested
  field), category code, country code, merchant name, merchant city, timestamp (the
  language marker \<open>00\<close>, the length of the timestamp and the timestamp), the amount for a
  dynamic payload only, currency, additional data (bill number, phone number, store label
  and terminal label as nested fields). \<open>amountValue\<close> is the padded amount string.
  \<open>encodeFields\<close> writes each as tag, length and value, one after the other.
\<close>

definition payloadFields :: "int \<Rightarrow> options \<Rightarrow> jsstring \<Rightarrow> (jsstring \<times> jsstring) list" where
  "payloadFields now opts amountValue =
     [(PAYLOAD_FORMAT_INDICATOR, DEFAULT_PAYLOAD_FORMAT_INDICATOR),
      (POINT_OF_INITIATION_METHOD, if opt_isStatic opts then STATIC_QR else DYNAMIC_QR),
      (MERCHANT_ACCOUNT_INFORMATION_INDIVIDUAL,
         formatValue PAYLOAD_FORMAT_INDICATOR (opt_bankAccount opts)),
      (MERCHANT_CATEGORY_CODE, DEFAULT_MERCHANT_CATEGORY_CODE),
      (COUNTRY_CODE, DEFAULT_COUNTRY_CODE),
      (MERCHANT_NAME, opt_merchantName opts),
      (MERCHANT_CITY, opt_merchantCity opts),
      (TIMESTAMP_TAG, formatValue (js ''00'') (intToString10 now))]
     @ (if opt_isStatic opts then [] else [(TRANSACTION_AMOUNT, amountValue)])
     @ [(TRANSACTION_CURRENCY,
           if toUpperCase (opt_currency opts) = js ''USD'' then TRANSACTION_CURRENCY_USD
           else TRANSACTION_CURRENCY_KHR),
        (ADDITION_DATA_TAG,
           formatValue BILLNUMBER_TAG (opt_billNumber opts) @
           formatValue ADDITION_DATA_FIELD_MOBILE_NUMBER (opt_phoneNumber opts) @
           formatValue STORE_LABEL (opt_storeLabel opts) @
           formatValue TERMINAL_LABEL (opt_terminalLabel opts))]"

definition encodeFields :: "(jsstring \<times> jsstring) list \<Rightarrow> jsstring" where
  "encodeFields fs = concat (map (\<lambda>f. formatValue (fst f) (snd f)) fs)"

subsection \<open>Reading a payload as the specification's Fields\<close>





subsection \<open>The length ceilings as the specification words them\<close>

text \<open>
  The ceilings, as (field name, ceiling, value), in the order in which \<open>createQR\<close> meets
  the attributes; the padded amount string is there for a dynamic payload only. The first
  value over its ceiling gives the error.
\<close>

definition spec_ceilings :: "options \<Rightarrow> jsstring \<Rightarrow> (jsstring \<times> nat \<times> jsstring) list" where
  "spec_ceilings opts amountValue =
     [(js ''Bank account'', 32, opt_bankAccount opts),
      (js ''Merchant name'', 25, opt_merchantName opts),
      (js ''Merchant city'', 15, opt_merchantCity opts)]
     @ (if opt_isStatic opts then [] else [(js ''Amount'', 14, amountValue)])
     @ [(js ''Bill number'', 25, opt_billNumber opts),
        (js ''Phone number'', 25, opt_phoneNumber opts),
        (js ''Store label'', 25, opt_storeLabel opts),
        (js ''Terminal label'', 25, opt_terminalLabel opts)]"

definition spec_tooLong :: "jsstring \<times> nat \<times> jsstring \<Rightarrow> bool" where
  "spec_tooLong a = (length (snd (snd a)) > fst (snd a))"

definition spec_firstTooLong :: "options \<Rightarrow> jsstring \<Rightarrow> codec_error option" where
  "spec_firstTooLong opts amountValue =
     (case find spec_tooLong (spec_ceilings opts amountValue) of
        None \<Rightarrow> None
      | Some a \<Rightarrow> Some (FieldTooLong (fst a) (fst (snd a)) (length (snd (snd a)))))"


section \<open>The payment monitor (\<open>AutoPaymentMonitor\<close>)\<close>

text \<open>
  \<open>paymentData\<close> is the object handed to \<open>addPayment\<close>; \<open>monitorInfo\<close> is the entry
  the monitor builds from it. Clock readings (\<open>Date.now()\<close>, milliseconds) are integers;
  the check counter is a natural number.
\<close>

record paymentData =
  pd_md5Hash :: jsstring
  pd_billNumber :: jsstring
  pd_amount :: jsnumber
  pd_currency :: jsstring
  pd_storeLabel :: jsstring
  pd_qrCode :: jsstring
  pd_transactionId :: jsstring

record monitorInfo =
  mi_md5Hash :: jsstring
  mi_billNumber :: jsstring
  mi_amount :: jsnumber
  mi_currency :: jsstring
  mi_storeLabel :: jsstring
  mi_sessionId :: jsstring
  mi_startTime :: int
  mi_lastCheck :: int
  mi_checkCount :: nat
  mi_status :: jsstring
  mi_qrCode :: jsstring

text \<open>
  What \<open>paymentService.checkPaymentStatus\<close> hands back: a result object, of which the
  monitor reads \<open>status\<close> and passes the rest on, or a rejection with its message.
\<close>

record checkResult =
  cr_status :: jsstring
  cr_paymentDetails :: "jsstring option"

datatype outcome = Resolved checkResult | Rejected jsstring

text \<open>
  The events the monitor emits. An event carries the \<open>monitorInfo\<close> object; the model
  records its fields as they are when the event is emitted, which is what a listener,
  called synchronously by \<open>emit\<close>, reads.
  \<^item> \<open>payment_added\<close>: the new entry;
  \<^item> \<open>payment_success\<close>: \<open>md5Hash\<close>, \<open>monitorInfo\<close>, \<open>result\<close>, \<open>duration\<close>;
  \<^item> \<open>payment_expired\<close>: \<open>md5Hash\<close>, \<open>monitorInfo\<close>, \<open>duration\<close>.
\<close>

datatype event =
    payment_added monitorInfo
  | payment_success jsstring monitorInfo checkResult int
  | payment_expired jsstring monitorInfo int

text \<open>
  The state of one \<open>AutoPaymentMonitor\<close>. The \<open>monitorInfo\<close> objects live in a store
  (\<open>objects\<close>, addressed by reference; \<open>nextRef\<close> is the next free reference), because
  a check that is waiting for the payment service keeps its object while the maps change.
  A JavaScript \<open>Map\<close> is an association list in insertion order, a \<open>Set\<close> a list in
  insertion order. \<open>emitted\<close> is the sequence of events emitted so far and
  \<open>statusChecks\<close> the sequence of calls made to \<open>paymentService.checkPaymentStatus\<close>.
\<close>

record monitor =
  objects :: "nat \<Rightarrow> monitorInfo"
  nextRef :: nat
  activeMonitors :: "(jsstring \<times> nat) list"
  userSessions :: "(jsstring \<times> jsstring list) list"
  paymentQueue :: "(jsstring \<times> paymentData) list"
  maxMonitorTime :: int
  checkInterval :: int
  isRunning :: bool
  emitted :: "event list"
  statusChecks :: "jsstring list"

subsection \<open>\<open>Map\<close> and \<open>Set\<close>\<close>

text \<open>\<open>Map.prototype.set\<close>: a present key keeps its place and gets the new value, a new
  key goes to the end.\<close>

fun map_set :: "'k \<Rightarrow> 'v \<Rightarrow> ('k \<times> 'v) list \<Rightarrow> ('k \<times> 'v) list" where
  "map_set k v [] = [(k, v)]"
| "map_set k v (p # ps) = (if fst p = k then (k, v) # ps else p # map_set k v ps)"

definition map_get :: "('k \<times> 'v) list \<Rightarrow> 'k \<Rightarrow> 'v option" where
  "map_get m k = map_of m k"

definition map_has :: "('k \<times> 'v) list \<Rightarrow> 'k \<Rightarrow> bool" where
  "map_has m k = (map_of m k \<noteq> None)"

definition map_delete :: "'k \<Rightarrow> ('k \<times> 'v) list \<Rightarrow> ('k \<times> 'v) list" where
  "map_delete k m = filter (\<lambda>p. fst p \<noteq> k) m"

definition set_add :: "'a \<Rightarrow> 'a list \<Rightarrow> 'a list" where
  "set_add x xs = (if x \<in> set xs then xs else xs @ [x])"

definition set_delete :: "'a \<Rightarrow> 'a list \<Rightarrow> 'a list" where
  "set_delete x xs = removeAll x xs"

subsection \<open>Operations\<close>

definition emit :: "event \<Rightarrow> monitor \<Rightarrow> monitor" where
  "emit e s = s\<lparr>emitted := emitted s @ [e]\<rparr>"

definition blankInfo :: monitorInfo where
  "blankInfo = \<lparr>mi_md5Hash = [], mi_billNumber = [], mi_amount = NaN, mi_currency = [],
     mi_storeLabel = [], mi_sessionId = [], mi_startTime = 0, mi_lastCheck = 0,
     mi_checkCount = 0, mi_status = [], mi_qrCode = []\<rparr>"

text \<open>The constructor: empty maps, 30 minutes, 10 seconds, not running.\<close>

definition newMonitor :: monitor where
  "newMonitor = \<lparr>objects = (\<lambda>_. blankInfo), nextRef = 0, activeMonitors = [],
     userSessions = [], paymentQueue = [], maxMonitorTime = 30 * 60 * 1000,
     checkInterval = 10000, isRunning = False, emitted = [], statusChecks = []\<rparr>"

definition start :: "monitor \<Rightarrow> monitor" where
  "start s = (if isRunning s then s else s\<lparr>isRunning := True\<rparr>)"

definition stop :: "monitor \<Rightarrow> monitor" where
  "stop s = s\<lparr>isRunning := False, activeMonitors := [], userSessions := [], paymentQueue := []\<rparr>"

text \<open>
  \<open>addPayment(paymentData, sessionId)\<close>. \<open>t\<^sub>1\<close> and \<open>t\<^sub>2\<close> are the two readings of
  \<open>Date.now()\<close>, for \<open>startTime\<close> and \<open>lastCheck\<close>. The new object is stored under
  \<open>md5Hash\<close> whether or not the key is present.
\<close>

definition addPayment :: "int \<Rightarrow> int \<Rightarrow> paymentData \<Rightarrow> jsstring \<Rightarrow> monitor \<Rightarrow> monitor" where
  "addPayment t\<^sub>1 t\<^sub>2 pd sessionId s =
     (let md5Hash = pd_md5Hash pd;
          info = \<lparr>mi_md5Hash = md5Hash, mi_billNumber = pd_billNumber pd,
                  mi_amount = pd_amount pd, mi_currency = pd_currency pd,
                  mi_storeLabel = pd_storeLabel pd, mi_sessionId = sessionId,
                  mi_startTime = t\<^sub>1, mi_lastCheck = t\<^sub>2, mi_checkCount = 0,
                  mi_status = js ''MONITORING'',
                  mi_qrCode = take 50 (pd_qrCode pd) @ js ''...''\<rparr>;
          r = nextRef s;
          s = s\<lparr>objects := (objects s)(r := info), nextRef := Suc r\<rparr>;
          s = s\<lparr>activeMonitors := map_set md5Hash r (activeMonitors s)\<rparr>;
          s = (if \<not> map_has (userSessions s) sessionId
               then s\<lparr>userSessions := map_set sessionId [] (userSessions s)\<rparr> else s);
          s = (case map_get (userSessions s) sessionId of
                 None \<Rightarrow> s
               | Some payments \<Rightarrow>
                   s\<lparr>userSessions := map_set sessionId (set_add md5Hash payments) (userSessions s)\<rparr>);
          s = s\<lparr>paymentQueue := map_set md5Hash pd (paymentQueue s)\<rparr>
      in emit (payment_added info) s)"

definition removePayment :: "jsstring \<Rightarrow> monitor \<Rightarrow> monitor" where
  "removePayment md5Hash s =
     (case map_get (activeMonitors s) md5Hash of
        None \<Rightarrow> s
      | Some r \<Rightarrow>
          (let info = objects s r;
               s = s\<lparr>activeMonitors := map_delete md5Hash (activeMonitors s)\<rparr>;
               s = s\<lparr>paymentQueue := map_delete md5Hash (paymentQueue s)\<rparr>
           in case map_get (userSessions s) (mi_sessionId info) of
                None \<Rightarrow> s
              | Some sessionPayments \<Rightarrow>
                  (let sessionPayments = set_delete md5Hash sessionPayments;
                       s = s\<lparr>userSessions :=
                              map_set (mi_sessionId info) sessionPayments (userSessions s)\<rparr>
                   in if length sessionPayments = 0
                      then s\<lparr>userSessions := map_delete (mi_sessionId info) (userSessions s)\<rparr>
                      else s)))"

text \<open>\<open>handlePaymentSuccess(md5Hash, monitorInfo, result)\<close>; \<open>now\<close> is the clock reading
  for the event's \<open>duration\<close>. \<open>r\<close> is the reference of \<open>monitorInfo\<close>.\<close>

definition handlePaymentSuccess :: "int \<Rightarrow> jsstring \<Rightarrow> nat \<Rightarrow> checkResult \<Rightarrow> monitor \<Rightarrow> monitor" where
  "handlePaymentSuccess now md5Hash r result s =
     (let s = removePayment md5Hash s
      in emit (payment_success md5Hash (objects s r) result (now - mi_startTime (objects s r))) s)"

definition expirePayment :: "jsstring \<Rightarrow> nat \<Rightarrow> monitor \<Rightarrow> monitor" where
  "expirePayment md5Hash r s =
     (let s = removePayment md5Hash s
      in emit (payment_expired md5Hash (objects s r) (maxMonitorTime s)) s)"

text \<open>
  \<open>checkSinglePayment(md5Hash, monitorInfo)\<close> is an \<open>async\<close> function with one
  \<open>await\<close>, so it runs in two uninterrupted parts. \<open>checkSinglePayment_begin\<close> is the part
  up to the \<open>await\<close>: it either expires the entry and returns (\<open>False\<close>: nothing is
  awaited), or counts the check, stamps it and calls the payment service (\<open>True\<close>).
\<close>

definition checkSinglePayment_begin :: "int \<Rightarrow> jsstring \<Rightarrow> nat \<Rightarrow> monitor \<Rightarrow> monitor \<times> bool" where
  "checkSinglePayment_begin now md5Hash r s =
     (let elapsed = now - mi_startTime (objects s r)
      in if elapsed > maxMonitorTime s then (expirePayment md5Hash r s, False)
         else
           (let info = objects s r;
                info = info\<lparr>mi_checkCount := mi_checkCount info + 1\<rparr>;
                info = info\<lparr>mi_lastCheck := now\<rparr>;
                s = s\<lparr>objects := (objects s)(r := info)\<rparr>
            in (s\<lparr>statusChecks := statusChecks s @ [md5Hash]\<rparr>, True)))"

text \<open>
  The part after the \<open>await\<close>, inside the \<open>try\<close>: a rejection is thrown on
  (\<open>Inl\<close>); a result with status \<open>PAID\<close> goes to \<open>handlePaymentSuccess\<close>; any other
  result has its status written to the entry.
\<close>

definition checkSinglePayment_try :: "int \<Rightarrow> outcome \<Rightarrow> jsstring \<Rightarrow> nat \<Rightarrow> monitor \<Rightarrow> jsstring + monitor" where
  "checkSinglePayment_try now oc md5Hash r s =
     (case oc of
        Rejected msg \<Rightarrow> Inl msg
      | Resolved result \<Rightarrow>
          if cr_status result = js ''PAID'' then Inr (handlePaymentSuccess now md5Hash r result s)
          else Inr (s\<lparr>objects := (objects s)(r := (objects s r)\<lparr>mi_status := cr_status result\<rparr>)\<rparr>))"

text \<open>The \<open>catch\<close> block logs the error and returns.\<close>

definition checkSinglePayment_resume :: "int \<Rightarrow> outcome \<Rightarrow> jsstring \<Rightarrow> nat \<Rightarrow> monitor \<Rightarrow> monitor" where
  "checkSinglePayment_resume now oc md5Hash r s =
     (case checkSinglePayment_try now oc md5Hash r s of Inl msg \<Rightarrow> s | Inr s' \<Rightarrow> s')"

text \<open>One whole call with nothing else running in between: \<open>now\<close> is read at the
  start, \<open>oc\<close> is what the payment service answers, \<open>now'\<close> is read after the answer.\<close>

definition checkSinglePayment :: "int \<Rightarrow> outcome \<Rightarrow> int \<Rightarrow> jsstring \<Rightarrow> nat \<Rightarrow> monitor \<Rightarrow> monitor" where
  "checkSinglePayment now oc now' md5Hash r s =
     (case checkSinglePayment_begin now md5Hash r s of
        (s', awaiting) \<Rightarrow> if awaiting then checkSinglePayment_resume now' oc md5Hash r s' else s')"







text \<open>A success event for \<open>md5Hash\<close>.\<close>

definition isSuccessFor :: "jsstring \<Rightarrow> event \<Rightarrow> bool" where
  "isSuccessFor md5Hash e = (case e of payment_success h _ _ _ \<Rightarrow> h = md5Hash | _ \<Rightarrow> False)"

definition getCompletedPayments :: "monitor \<Rightarrow> nat" where
  "getCompletedPayments s =
     length (filter (\<lambda>m. mi_status m = js ''PAID'') (map (\<lambda>(h, r). objects s r) (activeMonitors s)))"

text \<open>
  The states the monitor can be in: from the constructor, by the public methods, and by
  the two parts of a check. A check is started only on an entry just read from
  \<open>activeMonitors\<close> (by the tick's loop or by \<open>forceCheck\<close>); its second part may run at
  any later time, on an object that was allocated.
\<close>

inductive reachable :: "monitor \<Rightarrow> bool" where
  reach_new: "reachable newMonitor"
| reach_start: "reachable s \<Longrightarrow> reachable (start s)"
| reach_stop: "reachable s \<Longrightarrow> reachable (stop s)"
| reach_add: "reachable s \<Longrightarrow> reachable (addPayment t\<^sub>1 t\<^sub>2 pd sessionId s)"
| reach_remove: "reachable s \<Longrightarrow> reachable (removePayment md5Hash s)"
| reach_begin: "reachable s \<Longrightarrow> map_get (activeMonitors s) md5Hash = Some r \<Longrightarrow>
     reachable (fst (checkSinglePayment_begin now md5Hash r s))"
| reach_resume: "reachable s \<Longrightarrow> r < nextRef s \<Longrightarrow>
     reachable (checkSinglePayment_resume now oc md5Hash r s)"


text \<open>\<open>md5Hash\<close> is listed in the session index under \<open>sessionId\<close> only.\<close>

definition ownedOnlyBy :: "monitor \<Rightarrow> jsstring \<Rightarrow> jsstring \<Rightarrow> bool" where
  "ownedOnlyBy s md5Hash sessionId =
     list_all (\<lambda>(sid, payments). md5Hash \<in> set payments \<longrightarrow> sid = sessionId) (userSessions s)"

text \<open>\<open>md5Hash\<close> is in no session's set.\<close>

definition inNoSession :: "monitor \<Rightarrow> jsstring \<Rightarrow> bool" where
  "inNoSession s md5Hash = list_all (\<lambda>(sid, payments). md5Hash \<notin> set payments) (userSessions s)"



section \<open>Example inputs\<close>

text \<open>A dynamic payment of 10.50, and an input with every attribute at its ceiling.\<close>

definition opts0 :: options where
  "opts0 = \<lparr>opt_bankAccount = js ''user@bank'', opt_merchantName = js ''M'',
     opt_merchantCity = js ''Phnom Penh'', opt_amount = Num (21/2), opt_currency = js ''usd'',
     opt_storeLabel = js ''S'', opt_phoneNumber = js ''855'', opt_billNumber = js ''B1'',
     opt_terminalLabel = js ''T'', opt_isStatic = False\<rparr>"

definition atCeilings :: options where
  "atCeilings = \<lparr>opt_bankAccount = replicate 32 65, opt_merchantName = replicate 25 66,
     opt_merchantCity = replicate 15 67, opt_amount = Num (9999999999999 / 100),
     opt_currency = js ''KHR'', opt_storeLabel = replicate 25 68,
     opt_phoneNumber = replicate 25 57, opt_billNumber = replicate 25 69,
     opt_terminalLabel = replicate 25 70, opt_isStatic = False\<rparr>"


text \<open>A payment to watch, two answers of the payment service, and the monitor after the
  payment was added at time 1000 for session \<open>sess1\<close>.\<close>

definition pd0 :: paymentData where
  "pd0 = \<lparr>pd_md5Hash = js ''0cc175b9c0f1b6a831c399e269772661'', pd_billNumber = js ''B1'',
     pd_amount = Num (21 / 2), pd_currency = js ''USD'', pd_storeLabel = js ''S'',
     pd_qrCode = js ''00020101021229130009user@bank520459995802KH5901M'',
     pd_transactionId = js ''tx-1''\<rparr>"

definition unpaidResult :: checkResult where
  "unpaidResult = \<lparr>cr_status = js ''UNPAID'', cr_paymentDetails = None\<rparr>"

definition paidResult :: checkResult where
  "paidResult = \<lparr>cr_status = js ''PAID'', cr_paymentDetails = Some (js ''hash-1'')\<rparr>"

definition watching :: monitor where
  "watching = addPayment 1000 1000 pd0 (js ''sess1'') (start newMonitor)"



section \<open>The CRC engine: proofs\<close>

lemmas EMV_defs =
  DEFAULT_DYNAMIC_QR_def DEFAULT_STATIC_QR_def TRANSACTION_CURRENCY_USD_def
  TRANSACTION_CURRENCY_KHR_def TRANSACTION_CURRENCY_def PAYLOAD_FORMAT_INDICATOR_def
  DEFAULT_PAYLOAD_FORMAT_INDICATOR_def POINT_OF_INITIATION_METHOD_def STATIC_QR_def
  DYNAMIC_QR_def MERCHANT_NAME_def MERCHANT_CITY_def MERCHANT_CATEGORY_CODE_def
  DEFAULT_MERCHANT_CATEGORY_CODE_def COUNTRY_CODE_def DEFAULT_COUNTRY_CODE_def
  MERCHANT_ACCOUNT_INFORMATION_INDIVIDUAL_def TRANSACTION_AMOUNT_def ADDITION_DATA_TAG_def
  BILLNUMBER_TAG_def ADDITION_DATA_FIELD_MOBILE_NUMBER_def STORE_LABEL_def TERMINAL_LABEL_def
  TIMESTAMP_TAG_def CRC_def CRC_LENGTH_def DEFAULT_CRC_TAG_def
  INVALID_LENGTH_MERCHANT_NAME_def INVALID_LENGTH_BAKONG_ACCOUNT_def
  INVALID_LENGTH_MERCHANT_CITY_def INVALID_LENGTH_TRANSACTION_AMOUNT_def
  INVALID_LENGTH_BILL_NUMBER_def INVALID_LENGTH_STORE_LABEL_def
  INVALID_LENGTH_TERMINAL_LABEL_def INVALID_LENGTH_MOBILE_NUMBER_def

lemma test_bit_15: "(x :: 32 word) AND 0x8000 \<noteq> 0 \<longleftrightarrow> bit x 15"
proof -
  have "x AND 0x8000 = x AND push_bit 15 1"
    by simp
  also have "\<dots> \<noteq> 0 \<longleftrightarrow> bit x 15"
    by (simp only: and_exp_eq_0_iff_not_bit push_bit_of_1 not_not)
  finally show ?thesis .
qed

lemma bit_4129_32: "bit (0x1021 :: 32 word) n \<longleftrightarrow> n \<in> {0, 5, 12}"
proof -
  have "(0x1021 :: 32 word) = push_bit 12 1 OR push_bit 5 1 OR 1" by simp
  then show ?thesis by (simp only: bit_simps) (auto simp: bit_simps)
qed

lemma bit_4129_16: "bit (0x1021 :: 16 word) n \<longleftrightarrow> n \<in> {0, 5, 12}"
proof -
  have "(0x1021 :: 16 word) = push_bit 12 1 OR push_bit 5 1 OR 1" by simp
  then show ?thesis by (simp only: bit_simps) (auto simp: bit_simps)
qed

lemma crc_round_ucast: "ucast (crc_round x) = spec_crc_round (ucast x)"
proof -
  have m: "(0xFFFF :: 32 word) = mask 16"
    by (simp add: mask_eq_exp_minus_1)
  have b: "bit (ucast x :: 16 word) 15 = bit x 15"
    by (simp add: bit_ucast_iff)
  show ?thesis
    unfolding crc_round_def spec_crc_round_def polynomial_def test_bit_15 m b
    apply (rule bit_word_eqI)
    apply (cases "bit x 15")
    apply (simp_all only: if_True if_False bit_ucast_iff bit_and_iff bit_xor_iff bit_push_bit_iff bit_mask_iff bit_4129_32 bit_4129_16)
     apply auto
    done
qed

lemma crc_round_small: "ucast (ucast (crc_round x) :: 16 word) = crc_round x"
proof -
  have m: "(0xFFFF :: 32 word) = mask 16"
    by (simp add: mask_eq_exp_minus_1)
  show ?thesis
    unfolding crc_round_def m
    by (rule bit_word_eqI) (auto simp add: bit_ucast_iff bit_and_iff bit_mask_iff)
qed

lemma crc_round_eq: "crc_round x = ucast (spec_crc_round (ucast x))"
  using crc_round_small [of x] by (simp only: crc_round_ucast)

lemma ucast_16_32_16: "(ucast (ucast (r :: 16 word) :: 32 word) :: 16 word) = r"
  by (rule bit_word_eqI) (simp add: bit_ucast_iff)

lemma crc_rounds_ucast: "crc_rounds j (ucast r) = ucast (spec_crc_rounds j r)"
proof (induction j arbitrary: r)
  case 0
  show ?case by simp
next
  case (Suc j)
  have "crc_round (ucast r) = ucast (spec_crc_round r)"
    by (simp add: crc_round_eq ucast_16_32_16)
  then show ?case using Suc.IH by simp
qed

lemma crc_rounds_pos_eq:
  "0 < j \<Longrightarrow> crc_rounds j x = ucast (spec_crc_rounds j (ucast x))"
  by (cases j) (simp_all add: crc_round_eq [of x] crc_rounds_ucast ucast_16_32_16)

lemma xor_char_ucast:
  "(ucast ((ucast (r :: 16 word) :: 32 word) XOR push_bit 8 (ucast (ch :: 16 word))) :: 16 word)
     = r XOR push_bit 8 ch"
  by (rule bit_word_eqI) (auto simp add: bit_ucast_iff bit_xor_iff bit_push_bit_iff)

lemma crc_loop_ucast: "crc_loop data (ucast r) = ucast (spec_crc_loop data r)"
proof (induction data arbitrary: r)
  case Nil
  show ?case by simp
next
  case (Cons ch data)
  have "crc_rounds 8 (ucast r XOR push_bit 8 (ucast ch)) =
        ucast (spec_crc_rounds 8 (r XOR push_bit 8 ch))"
    using crc_rounds_pos_eq [of 8 "ucast r XOR push_bit 8 (ucast ch)"]
    by (simp only: xor_char_ucast)
  then show ?case using Cons.IH by simp
qed

lemma crc_loop_init: "crc_loop data 0xFFFF = ucast (spec_crc16 data)"
proof -
  have "(0xFFFF :: 32 word) = ucast (0xFFFF :: 16 word)" by simp
  then show ?thesis by (simp only: crc_loop_ucast spec_crc16_def)
qed

lemma sint_ucast_16_32: "sint (ucast (r :: 16 word) :: 32 word) = int (unat r)"
proof -
  have "uint r < 2 ^ 16"
    using uint_bounded [of r] by simp
  then have "uint r < 2 ^ 31"
    by simp
  moreover have "- (2 ^ 31) \<le> uint r"
    by (rule order_trans [of _ 0]) simp_all
  ultimately have "signed_take_bit 31 (uint r) = uint r"
    by (simp add: signed_take_bit_int_eq_self)
  then show ?thesis
    by (simp add: signed_ucast_eq)
qed

lemma upperChar_hexDigit: "d < 16 \<Longrightarrow> upperChar (hexDigit d) = spec_upperHexDigit d"
proof -
  assume "d < 16"
  then have "d = 0 \<or> d = 1 \<or> d = 2 \<or> d = 3 \<or> d = 4 \<or> d = 5 \<or> d = 6 \<or> d = 7 \<or> d = 8
      \<or> d = 9 \<or> d = 10 \<or> d = 11 \<or> d = 12 \<or> d = 13 \<or> d = 14 \<or> d = 15"
    by arith
  then show ?thesis
    by (elim disjE) (simp_all add: upperChar_def hexDigit_def spec_upperHexDigit_def)
qed

lemma natToString16_lt_65536:
  assumes "n < 65536"
  shows "padStart 4 48 (toUpperCase (natToString16 n)) =
         [spec_upperHexDigit (n div 4096), spec_upperHexDigit (n div 256 mod 16),
          spec_upperHexDigit (n div 16 mod 16), spec_upperHexDigit (n mod 16)]"
proof -
  have z: "spec_upperHexDigit 0 = 48"
    by (simp add: spec_upperHexDigit_def)
  have r: "replicate 3 c = [c, c, c]" "replicate 2 c = [c, c]" "replicate 1 c = [c]"
    for c :: "16 word"
    by (simp_all add: numeral_3_eq_3 numeral_2_eq_2)
  consider "n < 16" | "16 \<le> n" "n < 256" | "256 \<le> n" "n < 4096" | "4096 \<le> n"
    by linarith
  then show ?thesis
  proof cases
    case 1
    then show ?thesis
      by (simp add: natToString16.simps [of n] padStart_def toUpperCase_def
          upperChar_hexDigit z r)
  next
    case 2
    then have "n div 16 < 16" by simp
    with 2 show ?thesis
      by (simp add: natToString16.simps [of n] natToString16.simps [of "n div 16"]
          padStart_def toUpperCase_def upperChar_hexDigit z r)
  next
    case 3
    then have a: "n div 16 < 256" "\<not> n div 16 < 16" "n div 16 div 16 < 16"
      by simp_all
    have d: "n div 16 div 16 = n div 256"
      by (simp add: div_mult2_eq)
    from 3 a show ?thesis
      by (simp add: natToString16.simps [of n] natToString16.simps [of "n div 16"]
          natToString16.simps [of "n div 256"] d
          padStart_def toUpperCase_def upperChar_hexDigit z r)
  next
    case 4
    with assms have a: "\<not> n < 16" "\<not> n div 16 < 16" "\<not> n div 16 div 16 < 16"
      "n div 16 div 16 div 16 < 16"
      by simp_all
    have d: "n div 16 div 16 = n div 256" "n div 16 div 16 div 16 = n div 4096"
      "n div 256 div 16 = n div 4096"
      by (simp_all add: div_mult2_eq)
    have e: "n div 4096 mod 16 = n div 4096"
      using a d by simp
    from a show ?thesis
      by (simp add: natToString16.simps [of n] natToString16.simps [of "n div 16"]
          natToString16.simps [of "n div 256"] natToString16.simps [of "n div 4096"] d e
          padStart_def toUpperCase_def upperChar_hexDigit)
  qed
qed

lemma generateCRC16_spec: "generateCRC16 data = spec_hex4 (spec_crc16 data)"
proof -
  have "unat (spec_crc16 data) < 65536"
    using unsigned_less [of "spec_crc16 data", where ?'a = nat] by simp
  then show ?thesis
    by (simp add: generateCRC16_def crc_loop_init sint_ucast_16_32 toString16_def
        natToString16_lt_65536 spec_hex4_def Let_def)
qed



lemma spec_upperHexDigit_range:
  "d < 16 \<Longrightarrow> spec_upperHexDigit d \<in> set (js ''0123456789ABCDEF'')"
proof -
  assume "d < 16"
  then have "d = 0 \<or> d = 1 \<or> d = 2 \<or> d = 3 \<or> d = 4 \<or> d = 5 \<or> d = 6 \<or> d = 7 \<or> d = 8
      \<or> d = 9 \<or> d = 10 \<or> d = 11 \<or> d = 12 \<or> d = 13 \<or> d = 14 \<or> d = 15"
    by arith
  then show ?thesis
    by (elim disjE) (simp_all add: spec_upperHexDigit_def js_def)
qed

lemma spec_hex4_digits: "list_all (\<lambda>c. c \<in> set (js ''0123456789ABCDEF'')) (spec_hex4 r)"
proof -
  have "unat r < 65536"
    using unsigned_less [of r, where ?'a = nat] by simp
  then have "unat r div 4096 < 16"
    by simp
  then show ?thesis
    by (simp add: spec_hex4_def Let_def spec_upperHexDigit_range del: set_map)
qed

lemma length_generateCRC16: "length (generateCRC16 data) = 4"
  by (simp add: generateCRC16_spec spec_hex4_def Let_def)

lemma crc_rounds_numeral:
  "crc_rounds (numeral k) c = crc_rounds (pred_numeral k) (crc_round c)"
  by (simp add: numeral_eq_Suc)

lemma spec_crc_rounds_numeral:
  "spec_crc_rounds (numeral k) c = spec_crc_rounds (pred_numeral k) (spec_crc_round c)"
  by (simp add: numeral_eq_Suc)

lemmas crc_eval =
  generateCRC16_def js_def crc_rounds_numeral crc_round_def polynomial_def toString16_def
  natToString16.simps hexDigit_def padStart_def toUpperCase_def upperChar_def

text \<open>
  C3. \<open>generateCRC16\<close> is a function of its input alone, and for every input string it is
  the CRC-16/CCITT-FALSE checksum (register \<open>0xFFFF\<close>, polynomial \<open>0x1021\<close>, each
  character XORed into the high byte, eight shift-and-XOR rounds on 16 bits, no
  reflection, no final XOR) written as exactly four upper-case hexadecimal digits.
\<close>

theorem generateCRC16_ccitt_false:
  "generateCRC16 data = spec_hex4 (spec_crc16 data) \<and>
   length (generateCRC16 data) = 4 \<and>
   list_all (\<lambda>c. c \<in> set (js ''0123456789ABCDEF'')) (generateCRC16 data)"
proof (intro conjI)
  show "generateCRC16 data = spec_hex4 (spec_crc16 data)"
    by (rule generateCRC16_spec)
  show "length (generateCRC16 data) = 4"
    by (rule length_generateCRC16)
  show "list_all (\<lambda>c. c \<in> set (js ''0123456789ABCDEF'')) (generateCRC16 data)"
    unfolding generateCRC16_spec by (rule spec_hex4_digits)
qed

theorem generateCRC16_ccitt_false_witness:
  "generateCRC16 (js ''123456789'') = js ''29B1'' \<and>
   spec_hex4 (spec_crc16 (js ''123456789'')) = js ''29B1''"
proof -
  have e: "generateCRC16 (js ''123456789'') = js ''29B1''"
    by (simp add: crc_eval)
  have "spec_hex4 (spec_crc16 (js ''123456789'')) = generateCRC16 (js ''123456789'')"
    using generateCRC16_ccitt_false [of "js ''123456789''"] by simp
  with e show ?thesis
    by (simp only: simp_thms)
qed

section \<open>The codec: proofs\<close>

lemmas codec_defs =
  createQR_def bindE_def validateLength_def formatValue_def payloadFormatIndicator_def
  pointOfInitiation_def globalUniqueIdentifier_def merchantCategoryCode_def countryCode_def
  merchantName_def merchantCity_def timestamp_def amount_def transactionCurrency_def
  additionalDataField_def crc_def parseFloat_def paddedAmountStr_def

lemma replicate_numeral: "replicate (numeral k) x = x # replicate (pred_numeral k) x"
  by (simp add: numeral_eq_Suc)

lemma toString10_lt10: "n < 10 \<Longrightarrow> toString10 n = [of_nat (48 + n)]"
  by (simp add: toString10.simps)

lemma toString10_ge10:
  "10 \<le> n \<Longrightarrow> toString10 n = toString10 (n div 10) @ [of_nat (48 + n mod 10)]"
  by (simp add: toString10.simps [of n])

lemma replicate_1: "replicate 1 x = [x]"
  by simp

lemma take_1: "take 1 (x # xs) = [x]"
  by simp

lemma drop_1: "drop 1 (x # xs) = xs"
  by simp

lemma floor_2101: "\<lfloor>(2101 / 2 :: rat)\<rfloor> = 1050"
  by code_simp

lemmas string_eval =
  js_def padStart_def toString10_lt10 toString10_ge10 intToString10_def toUpperCase_def
  upperChar_def replicate_numeral replicate_1 take_1 drop_1 One_nat_def [symmetric]

lemmas amount_eval =
  toFixed2_def matchHere_def zeros_def

subsection \<open>Checksum field\<close>

lemma crc_unfold: "crc qrData = CRC @ CRC_LENGTH @ generateCRC16 (qrData @ DEFAULT_CRC_TAG)"
  by (simp add: crc_def CRC_def CRC_LENGTH_def DEFAULT_CRC_TAG_def js_def Let_def)

lemma length_crc: "length (crc qrData) = 8"
  by (simp add: crc_unfold length_generateCRC16 CRC_def CRC_LENGTH_def js_def)

lemma createQR_unfold:
  "createQR nts now opts =
     bindE (globalUniqueIdentifier (opt_bankAccount opts)) (\<lambda>g.
     bindE (merchantName (opt_merchantName opts)) (\<lambda>n.
     bindE (merchantCity (opt_merchantCity opts)) (\<lambda>c.
     bindE (if opt_isStatic opts then Inr [] else amount nts (opt_amount opts)) (\<lambda>a.
     bindE (additionalDataField (opt_storeLabel opts) (opt_phoneNumber opts)
              (opt_billNumber opts) (opt_terminalLabel opts)) (\<lambda>d.
       Inr ((payloadFormatIndicator @ pointOfInitiation (opt_isStatic opts) @ g @
             merchantCategoryCode @ countryCode @ n @ c @ timestamp now @ a @
             transactionCurrency (opt_currency opts) @ d) @
            crc (payloadFormatIndicator @ pointOfInitiation (opt_isStatic opts) @ g @
             merchantCategoryCode @ countryCode @ n @ c @ timestamp now @ a @
             transactionCurrency (opt_currency opts) @ d)))))))"
  by (simp add: createQR_def bindE_def Let_def split: sum.splits)

lemma bindE_Inr: "bindE r f = Inr q \<Longrightarrow> \<exists>v. r = Inr v \<and> f v = Inr q"
  by (cases r) (simp_all add: bindE_def)

lemma createQR_Inr_crc:
  assumes "createQR nts now opts = Inr q"
  shows "\<exists>d. q = d @ crc d"
proof -
  from assms [unfolded createQR_unfold] obtain g where
    "bindE (merchantName (opt_merchantName opts)) (\<lambda>n.
     bindE (merchantCity (opt_merchantCity opts)) (\<lambda>c.
     bindE (if opt_isStatic opts then Inr [] else amount nts (opt_amount opts)) (\<lambda>a.
     bindE (additionalDataField (opt_storeLabel opts) (opt_phoneNumber opts)
              (opt_billNumber opts) (opt_terminalLabel opts)) (\<lambda>d.
       Inr ((payloadFormatIndicator @ pointOfInitiation (opt_isStatic opts) @ g @
             merchantCategoryCode @ countryCode @ n @ c @ timestamp now @ a @
             transactionCurrency (opt_currency opts) @ d) @
            crc (payloadFormatIndicator @ pointOfInitiation (opt_isStatic opts) @ g @
             merchantCategoryCode @ countryCode @ n @ c @ timestamp now @ a @
             transactionCurrency (opt_currency opts) @ d)))))) = Inr q"
    by (blast dest: bindE_Inr)
  then obtain n where
    "bindE (merchantCity (opt_merchantCity opts)) (\<lambda>c.
     bindE (if opt_isStatic opts then Inr [] else amount nts (opt_amount opts)) (\<lambda>a.
     bindE (additionalDataField (opt_storeLabel opts) (opt_phoneNumber opts)
              (opt_billNumber opts) (opt_terminalLabel opts)) (\<lambda>d.
       Inr ((payloadFormatIndicator @ pointOfInitiation (opt_isStatic opts) @ g @
             merchantCategoryCode @ countryCode @ n @ c @ timestamp now @ a @
             transactionCurrency (opt_currency opts) @ d) @
            crc (payloadFormatIndicator @ pointOfInitiation (opt_isStatic opts) @ g @
             merchantCategoryCode @ countryCode @ n @ c @ timestamp now @ a @
             transactionCurrency (opt_currency opts) @ d))))) = Inr q"
    by (blast dest: bindE_Inr)
  then obtain c where
    "bindE (if opt_isStatic opts then Inr [] else amount nts (opt_amount opts)) (\<lambda>a.
     bindE (additionalDataField (opt_storeLabel opts) (opt_phoneNumber opts)
              (opt_billNumber opts) (opt_terminalLabel opts)) (\<lambda>d.
       Inr ((payloadFormatIndicator @ pointOfInitiation (opt_isStatic opts) @ g @
             merchantCategoryCode @ countryCode @ n @ c @ timestamp now @ a @
             transactionCurrency (opt_currency opts) @ d) @
            crc (payloadFormatIndicator @ pointOfInitiation (opt_isStatic opts) @ g @
             merchantCategoryCode @ countryCode @ n @ c @ timestamp now @ a @
             transactionCurrency (opt_currency opts) @ d)))) = Inr q"
    by (blast dest: bindE_Inr)
  then obtain a where
    "bindE (additionalDataField (opt_storeLabel opts) (opt_phoneNumber opts)
              (opt_billNumber opts) (opt_terminalLabel opts)) (\<lambda>d.
       Inr ((payloadFormatIndicator @ pointOfInitiation (opt_isStatic opts) @ g @
             merchantCategoryCode @ countryCode @ n @ c @ timestamp now @ a @
             transactionCurrency (opt_currency opts) @ d) @
            crc (payloadFormatIndicator @ pointOfInitiation (opt_isStatic opts) @ g @
             merchantCategoryCode @ countryCode @ n @ c @ timestamp now @ a @
             transactionCurrency (opt_currency opts) @ d))) = Inr q"
    by (blast dest: bindE_Inr)
  then obtain d where
    "Inr ((payloadFormatIndicator @ pointOfInitiation (opt_isStatic opts) @ g @
             merchantCategoryCode @ countryCode @ n @ c @ timestamp now @ a @
             transactionCurrency (opt_currency opts) @ d) @
            crc (payloadFormatIndicator @ pointOfInitiation (opt_isStatic opts) @ g @
             merchantCategoryCode @ countryCode @ n @ c @ timestamp now @ a @
             transactionCurrency (opt_currency opts) @ d)) = (Inr q :: codec_error + jsstring)"
    by (blast dest: bindE_Inr)
  then show ?thesis
    by blast
qed

text \<open>
  C6. For every encoded payload, what precedes its last eight characters is the payload so
  far, and the last eight characters are the checksum field: the tag \<open>63\<close>, the fixed
  length \<open>04\<close> and the CRC-16/CCITT-FALSE checksum of the payload so far with the
  placeholder \<open>6304\<close> appended, as four upper-case hexadecimal digits.
\<close>

theorem createQR_checksum:
  assumes "createQR nts now opts = Inr q"
  shows "q = take (length q - 8) q @ js ''63'' @ js ''04'' @
               spec_hex4 (spec_crc16 (take (length q - 8) q @ js ''6304'')) \<and>
         length (spec_hex4 (spec_crc16 (take (length q - 8) q @ js ''6304''))) = 4 \<and>
         list_all (\<lambda>c. c \<in> set (js ''0123456789ABCDEF''))
           (spec_hex4 (spec_crc16 (take (length q - 8) q @ js ''6304'')))"
proof -
  from assms obtain d where q: "q = d @ crc d"
    using createQR_Inr_crc by blast
  then have t: "take (length q - 8) q = d"
    by (simp add: length_crc)
  have c: "crc d = js ''63'' @ js ''04'' @ spec_hex4 (spec_crc16 (d @ js ''6304''))"
    by (simp add: crc_unfold generateCRC16_spec DEFAULT_CRC_TAG_def CRC_def CRC_LENGTH_def)
  have "q = d @ js ''63'' @ js ''04'' @ spec_hex4 (spec_crc16 (d @ js ''6304''))"
    using q c by simp
  moreover have "length (spec_hex4 (spec_crc16 (d @ js ''6304''))) = 4"
    by (simp add: spec_hex4_def Let_def)
  ultimately show ?thesis
    unfolding t using spec_hex4_digits [of "spec_crc16 (d @ js ''6304'')"] by simp
qed

lemma createQR_opts0:
  "createQR nts 1700000000000 opts0 = Inr (js ''00020101021229130009user@bank520459995802KH5901M6010Phnom Penh9917001317000000000005411000000010.5530384062230102B102038550301S0701T630482AC'')"
  apply (simp add: opts0_def codec_defs EMV_defs string_eval amount_eval floor_2101 Let_def del: One_nat_def)
  apply (simp add: crc_eval)
  done

text \<open>The 16-bit CRC of the specification, computed on its own for that payload.\<close>

lemma spec_crc16_opts0:
  "spec_hex4 (spec_crc16 (js ''00020101021229130009user@bank520459995802KH5901M6010Phnom Penh9917001317000000000005411000000010.5530384062230102B102038550301S0701T6304'')) = js ''82AC''"
  by (simp add: spec_crc16_def spec_hex4_def js_def spec_crc_rounds_numeral spec_crc_round_def
      spec_upperHexDigit_def)

theorem createQR_checksum_witness:
  "createQR (\<lambda>_. []) 1700000000000 opts0 = Inr (js ''00020101021229130009user@bank520459995802KH5901M6010Phnom Penh9917001317000000000005411000000010.5530384062230102B102038550301S0701T630482AC'') \<and>
   spec_hex4 (spec_crc16 (js ''00020101021229130009user@bank520459995802KH5901M6010Phnom Penh9917001317000000000005411000000010.5530384062230102B102038550301S0701T6304'')) = js ''82AC''"
proof -
  have e: "createQR (\<lambda>_. []) 1700000000000 opts0 = Inr (js ''00020101021229130009user@bank520459995802KH5901M6010Phnom Penh9917001317000000000005411000000010.5530384062230102B102038550301S0701T630482AC'')"
    by (rule createQR_opts0)
  show ?thesis
    using createQR_checksum [OF e] e spec_crc16_opts0
    by (simp add: js_def)
qed

subsection \<open>Amount formatting\<close>

lemma spec_stripZeros_Nil: "spec_stripZeros [] = []"
  by (simp add: spec_stripZeros_def)

lemma spec_stripZeros_zeros: "list_all (\<lambda>c. c = 48) r \<Longrightarrow> spec_stripZeros r = []"
  by (simp add: spec_stripZeros_def list_all_iff dropWhile_eq_Nil_conv)

lemma spec_stripZeros_Cons:
  "spec_stripZeros (c # r) =
     (if (if c = 46 then list_all (\<lambda>c. c = 48) r else list_all (\<lambda>c. c = 48) (c # r))
      then [] else c # spec_stripZeros r)"
proof (cases "list_all (\<lambda>c. c = 48) r")
  case True
  then have d: "dropWhile (\<lambda>c. c = 48) (rev r @ [c]) = dropWhile (\<lambda>c. c = 48) [c]"
    by (simp add: dropWhile_append list_all_iff)
  show ?thesis
    using True by (simp add: spec_stripZeros_def [of "c # r"] d spec_stripZeros_zeros)
next
  case False
  define tr where "tr = rev (dropWhile (\<lambda>c. c = 48) (rev r))"
  from False have n: "tr \<noteq> []"
    by (simp add: tr_def dropWhile_eq_Nil_conv list_all_iff)
  from False have "dropWhile (\<lambda>c. c = 48) (rev r @ [c]) = dropWhile (\<lambda>c. c = 48) (rev r) @ [c]"
    by (auto simp add: dropWhile_append list_all_iff)
  then have t: "rev (dropWhile (\<lambda>c. c = 48) (rev (c # r))) = c # tr"
    by (simp add: tr_def)
  have "spec_stripZeros (c # r) = (if last tr = 46 then c # butlast tr else c # tr)"
    unfolding spec_stripZeros_def [of "c # r"] t using n by (simp add: Let_def)
  moreover have "spec_stripZeros r = (if last tr = 46 then butlast tr else tr)"
    unfolding spec_stripZeros_def [of r] tr_def [symmetric] using n by (simp add: Let_def)
  ultimately show ?thesis
    using False by simp
qed

lemma replaceTrailingZeros_spec:
  "s = [] \<or> last s \<noteq> 46 \<Longrightarrow> replaceTrailingZeros s = spec_stripZeros s"
proof (induction s)
  case Nil
  show ?case by (simp add: spec_stripZeros_Nil)
next
  case (Cons c r)
  show ?case
  proof (cases "r = []")
    case True
    with Cons.prems show ?thesis
      by (simp add: spec_stripZeros_Cons spec_stripZeros_Nil matchHere_def zeros_def)
  next
    case False
    with Cons.prems have "last r \<noteq> 46" by simp
    then have "replaceTrailingZeros r = spec_stripZeros r"
      using Cons.IH by simp
    with False show ?thesis
      by (simp add: spec_stripZeros_Cons matchHere_def zeros_def)
  qed
qed

lemma digit_not_point: "d < 10 \<Longrightarrow> (of_nat (48 + d) :: 16 word) \<noteq> 46"
proof -
  assume "d < 10"
  then have "d = 0 \<or> d = 1 \<or> d = 2 \<or> d = 3 \<or> d = 4 \<or> d = 5 \<or> d = 6 \<or> d = 7 \<or> d = 8 \<or> d = 9"
    by arith
  then show ?thesis
    by (elim disjE) simp_all
qed

lemma toString10_last:
  "toString10 n \<noteq> [] \<and> last (toString10 n) = of_nat (48 + n mod 10)"
  by (simp add: toString10.simps [of n])

lemma toFixed2_last:
  assumes "case v of Num x \<Rightarrow> \<bar>x\<bar> < 10 ^ 21 | _ \<Rightarrow> True"
  shows "toFixed2 nts v \<noteq> [] \<and> last (toFixed2 nts v) \<noteq> 46"
proof (cases v)
  case (Num x)
  define n where "n = nat \<lfloor>\<bar>x\<bar> * 100 + 1 / 2\<rfloor>"
  define m where "m = (if length (toString10 n) \<le> 2
    then replicate (3 - length (toString10 n)) 48 @ toString10 n else toString10 n)"
  have small: "\<not> \<bar>x\<bar> \<ge> 10 ^ 21"
    using assms Num by simp
  have m: "m \<noteq> []" "last m = of_nat (48 + n mod 10)" "2 < length m"
    using toString10_last [of n] by (auto simp add: m_def)
  then have l: "drop (length m - 2) m \<noteq> []" "last (drop (length m - 2) m) = last m"
    by simp_all
  have t: "toFixed2 nts v = (if x < 0 then js ''-'' else []) @ take (length m - 2) m @ js ''.'' @
      drop (length m - 2) m"
    using small unfolding Num toFixed2_def n_def m_def
    by (simp add: Let_def abs_if)
  have "last (toFixed2 nts v) = last m"
    unfolding t using l by simp
  moreover have "toFixed2 nts v \<noteq> []"
    unfolding t using l by simp
  ultimately show ?thesis
    using m(2) digit_not_point [of "n mod 10"] by simp
qed (simp_all add: toFixed2_def js_def)

lemma amount_spec:
  assumes "case v of Num x \<Rightarrow> \<bar>x\<bar> < 10 ^ 21 | _ \<Rightarrow> True"
  shows "amount nts v =
     (if length (spec_amountValue nts v) > 14
      then Inl (FieldTooLong (js ''Amount'') 14 (length (spec_amountValue nts v)))
      else Inr (formatValue TRANSACTION_AMOUNT (spec_amountValue nts v)))"
proof -
  have "replaceTrailingZeros (toFixed2 nts v) = spec_stripZeros (toFixed2 nts v)"
    using toFixed2_last [OF assms, of nts] by (simp add: replaceTrailingZeros_spec)
  then have p: "paddedAmountStr nts v = spec_amountValue nts v"
    by (simp add: paddedAmountStr_def parseFloat_def spec_amountValue_def padStart_def Let_def)
  show ?thesis
    by (simp add: amount_def p Let_def bindE_def validateLength_def
        INVALID_LENGTH_TRANSACTION_AMOUNT_def)
qed

lemma floor_1000: "\<lfloor>(1000 :: rat) + 1 / 2\<rfloor> = 1000"
  by code_simp

lemma floor_2001: "\<lfloor>(2001 / 2 :: rat)\<rfloor> = 1000"
  by code_simp

lemma amount_10_50: "amount nts (Num (21 / 2)) = Inr (formatValue TRANSACTION_AMOUNT (js ''000000010.5''))"
  by (simp add: codec_defs EMV_defs string_eval amount_eval floor_2101 Let_def del: One_nat_def)

lemma amount_10_00: "amount nts (Num 10) = Inr (formatValue TRANSACTION_AMOUNT (js ''00000000010''))"
  by (simp add: codec_defs EMV_defs string_eval amount_eval floor_2001 floor_1000 Let_def del: One_nat_def)


text \<open>
  C1 (amended). For every amount that is not a finite number of magnitude \<open>10\<^sup>2\<^sup>1\<close> or
  more, the amount field's value is the amount formatted to two decimal places, with the
  trailing zeros and then a trailing decimal point stripped, left-padded with \<open>0\<close> to 11
  characters; the amount is accepted when that string has at most 14 characters. Amount
  10.50 yields \<open>000000010.5\<close> and amount 10.00 yields \<open>00000000010\<close>.
\<close>

theorem amount_two_decimals_stripped_padded:
  assumes "case v of Num x \<Rightarrow> \<bar>x\<bar> < 10 ^ 21 | _ \<Rightarrow> True"
  shows "amount nts v =
           (if length (spec_amountValue nts v) > 14
            then Inl (FieldTooLong (js ''Amount'') 14 (length (spec_amountValue nts v)))
            else Inr (formatValue TRANSACTION_AMOUNT (spec_amountValue nts v))) \<and>
         amount nts (Num (21 / 2)) = Inr (formatValue TRANSACTION_AMOUNT (js ''000000010.5'')) \<and>
         amount nts (Num 10) = Inr (formatValue TRANSACTION_AMOUNT (js ''00000000010''))"
  using amount_spec [OF assms] amount_10_50 amount_10_00 by simp

theorem amount_two_decimals_stripped_padded_witness:
  "(case Num (21 / 2) of Num x \<Rightarrow> \<bar>x\<bar> < 10 ^ 21 | _ \<Rightarrow> True) \<and>
   spec_amountValue (\<lambda>_. []) (Num (21 / 2)) = js ''000000010.5'' \<and>
   amount (\<lambda>_. []) (Num (21 / 2)) = Inr (js ''5411000000010.5'')"
proof -
  have h: "case Num (21 / 2) of Num x \<Rightarrow> \<bar>x\<bar> < 10 ^ 21 | _ \<Rightarrow> True"
    by simp
  have e: "spec_amountValue (\<lambda>_. []) (Num (21 / 2)) = js ''000000010.5''"
    by (simp add: spec_amountValue_def spec_stripZeros_def string_eval amount_eval floor_2101
        Let_def del: One_nat_def)
  have f: "formatValue TRANSACTION_AMOUNT (js ''000000010.5'') = js ''5411000000010.5''"
    by (simp add: formatValue_def TRANSACTION_AMOUNT_def string_eval del: One_nat_def)
  show ?thesis
    using amount_two_decimals_stripped_padded [OF h, of "\<lambda>_. []"] h
    by (simp add: e f) (simp add: js_def)
qed

text \<open>Amount 10.50 does not yield \<open>00000001050\<close>: the decimal point stays.\<close>

theorem amount_10_50_counterexample:
  "amount (\<lambda>_. []) (Num (21 / 2)) = Inr (formatValue TRANSACTION_AMOUNT (js ''000000010.5'')) \<and>
   amount (\<lambda>_. []) (Num (21 / 2)) \<noteq> Inr (formatValue TRANSACTION_AMOUNT (js ''00000001050''))"
  by (simp add: amount_10_50 [of "\<lambda>_. []"] formatValue_def js_def)

subsection \<open>The payload, field by field\<close>

lemma timestamp_formatValue:
  "timestamp now = formatValue TIMESTAMP_TAG (formatValue (js ''00'') (intToString10 now))"
  by (simp add: timestamp_def formatValue_def Let_def)

lemma createQR_spec:
  "createQR nts now opts =
     (case spec_firstTooLong opts (paddedAmountStr nts (opt_amount opts)) of
        Some e \<Rightarrow> Inl e
      | None \<Rightarrow>
          Inr (encodeFields (payloadFields now opts (paddedAmountStr nts (opt_amount opts))) @
               crc (encodeFields (payloadFields now opts (paddedAmountStr nts (opt_amount opts))))))"
  unfolding createQR_unfold
  by (cases "opt_isStatic opts")
     (simp_all add: bindE_def globalUniqueIdentifier_def merchantName_def merchantCity_def
        amount_def additionalDataField_def validateLength_def payloadFormatIndicator_def
        pointOfInitiation_def merchantCategoryCode_def countryCode_def transactionCurrency_def
        timestamp_formatValue spec_firstTooLong_def spec_ceilings_def spec_tooLong_def
        encodeFields_def payloadFields_def Let_def
        INVALID_LENGTH_MERCHANT_NAME_def INVALID_LENGTH_BAKONG_ACCOUNT_def
        INVALID_LENGTH_MERCHANT_CITY_def INVALID_LENGTH_TRANSACTION_AMOUNT_def
        INVALID_LENGTH_BILL_NUMBER_def INVALID_LENGTH_STORE_LABEL_def
        INVALID_LENGTH_TERMINAL_LABEL_def INVALID_LENGTH_MOBILE_NUMBER_def)

text \<open>
  C5. \<open>createQR\<close> fails exactly when some attribute is over its ceiling (bank account 32,
  merchant name 25, merchant city 15, padded amount string 14 for a dynamic payload, bill
  number 25, phone number 25, store label 25, terminal label 25), and then with the error
  that names the first such attribute, its ceiling and its actual length; no payload is
  returned and nothing is truncated. With every value at or under its ceiling it succeeds.
\<close>

theorem createQR_length_guard:
  "(case spec_firstTooLong opts (paddedAmountStr nts (opt_amount opts)) of
      Some e \<Rightarrow> createQR nts now opts = Inl e
    | None \<Rightarrow> \<not> isl (createQR nts now opts)) \<and>
   (spec_firstTooLong opts (paddedAmountStr nts (opt_amount opts)) = None) =
     list_all (\<lambda>a. length (snd (snd a)) \<le> fst (snd a))
       (spec_ceilings opts (paddedAmountStr nts (opt_amount opts)))"
proof -
  have k: "list_all (\<lambda>a. length (snd (snd a)) \<le> fst (snd a)) xs = (find spec_tooLong xs = None)"
    for xs
    by (induction xs) (auto simp add: spec_tooLong_def)
  show ?thesis
    by (auto simp add: createQR_spec spec_firstTooLong_def k split: option.splits)
qed

lemma floor_ceil_amount: "\<lfloor>(19999999999999 / 2 :: rat)\<rfloor> = 9999999999999"
  by code_simp

lemma padded_atCeilings: "paddedAmountStr nts (Num (9999999999999 / 100)) = js ''99999999999.99''"
  by (simp add: codec_defs string_eval amount_eval floor_ceil_amount Let_def del: One_nat_def)

theorem createQR_length_guard_witness:
  "\<not> isl (createQR (\<lambda>_. []) 1700000000000 atCeilings) \<and>
   createQR (\<lambda>_. []) 1700000000000 (atCeilings\<lparr>opt_merchantName := replicate 26 66\<rparr>) =
     Inl (FieldTooLong (js ''Merchant name'') 25 26) \<and>
   createQR (\<lambda>_. []) 1700000000000 (atCeilings\<lparr>opt_amount := Num (99999999999999 / 100)\<rparr>) =
     Inl (FieldTooLong (js ''Amount'') 14 15)"
proof -
  have p: "paddedAmountStr nts (Num (99999999999999 / 100)) = js ''999999999999.99''" for nts
  proof -
    have "\<lfloor>(199999999999999 / 2 :: rat)\<rfloor> = 99999999999999"
      by code_simp
    then show ?thesis
      by (simp add: codec_defs string_eval amount_eval Let_def del: One_nat_def)
  qed
  have a: "spec_firstTooLong atCeilings (paddedAmountStr (\<lambda>_. []) (opt_amount atCeilings)) = None"
    by (simp add: atCeilings_def padded_atCeilings spec_firstTooLong_def spec_ceilings_def
        spec_tooLong_def js_def)
  have b: "spec_firstTooLong (atCeilings\<lparr>opt_merchantName := replicate 26 66\<rparr>)
      (paddedAmountStr (\<lambda>_. []) (opt_amount (atCeilings\<lparr>opt_merchantName := replicate 26 66\<rparr>))) =
      Some (FieldTooLong (js ''Merchant name'') 25 26)"
    by (simp add: atCeilings_def padded_atCeilings spec_firstTooLong_def spec_ceilings_def
        spec_tooLong_def js_def)
  have c: "spec_firstTooLong (atCeilings\<lparr>opt_amount := Num (99999999999999 / 100)\<rparr>)
      (paddedAmountStr (\<lambda>_. []) (opt_amount (atCeilings\<lparr>opt_amount := Num (99999999999999 / 100)\<rparr>))) =
      Some (FieldTooLong (js ''Amount'') 14 15)"
    by (simp add: atCeilings_def p spec_firstTooLong_def spec_ceilings_def
        spec_tooLong_def js_def)
  have "case spec_firstTooLong atCeilings (paddedAmountStr (\<lambda>_. []) (opt_amount atCeilings)) of
      Some e \<Rightarrow> createQR (\<lambda>_. []) 1700000000000 atCeilings = Inl e
    | None \<Rightarrow> \<not> isl (createQR (\<lambda>_. []) 1700000000000 atCeilings)"
    using createQR_length_guard [where opts = atCeilings and nts = "\<lambda>_. []" and now = 1700000000000]
    by (rule conjunct1)
  then have 1: "\<not> isl (createQR (\<lambda>_. []) 1700000000000 atCeilings)"
    unfolding a by simp
  have "case spec_firstTooLong (atCeilings\<lparr>opt_merchantName := replicate 26 66\<rparr>)
      (paddedAmountStr (\<lambda>_. []) (opt_amount (atCeilings\<lparr>opt_merchantName := replicate 26 66\<rparr>))) of
      Some e \<Rightarrow> createQR (\<lambda>_. []) 1700000000000 (atCeilings\<lparr>opt_merchantName := replicate 26 66\<rparr>) = Inl e
    | None \<Rightarrow> \<not> isl (createQR (\<lambda>_. []) 1700000000000 (atCeilings\<lparr>opt_merchantName := replicate 26 66\<rparr>))"
    using createQR_length_guard [where opts = "atCeilings\<lparr>opt_merchantName := replicate 26 66\<rparr>"
        and nts = "\<lambda>_. []" and now = 1700000000000]
    by (rule conjunct1)
  then have 2: "createQR (\<lambda>_. []) 1700000000000 (atCeilings\<lparr>opt_merchantName := replicate 26 66\<rparr>) =
      Inl (FieldTooLong (js ''Merchant name'') 25 26)"
    unfolding b by simp
  have "case spec_firstTooLong (atCeilings\<lparr>opt_amount := Num (99999999999999 / 100)\<rparr>)
      (paddedAmountStr (\<lambda>_. []) (opt_amount (atCeilings\<lparr>opt_amount := Num (99999999999999 / 100)\<rparr>))) of
      Some e \<Rightarrow> createQR (\<lambda>_. []) 1700000000000 (atCeilings\<lparr>opt_amount := Num (99999999999999 / 100)\<rparr>) = Inl e
    | None \<Rightarrow> \<not> isl (createQR (\<lambda>_. []) 1700000000000 (atCeilings\<lparr>opt_amount := Num (99999999999999 / 100)\<rparr>))"
    using createQR_length_guard [where opts = "atCeilings\<lparr>opt_amount := Num (99999999999999 / 100)\<rparr>"
        and nts = "\<lambda>_. []" and now = 1700000000000]
    by (rule conjunct1)
  then have 3: "createQR (\<lambda>_. []) 1700000000000 (atCeilings\<lparr>opt_amount := Num (99999999999999 / 100)\<rparr>) =
      Inl (FieldTooLong (js ''Amount'') 14 15)"
    unfolding c by simp
  from 1 2 3 show ?thesis
    by (intro conjI)
qed

section \<open>The payment monitor: proofs\<close>

subsection \<open>Maps and sets\<close>

lemma map_of_map_set: "map_of (map_set k v m) = (map_of m)(k \<mapsto> v)"
  by (induction m) (auto simp add: fun_eq_iff)

lemma map_of_map_delete: "map_of (map_delete k m) = (map_of m)(k := None)"
  by (induction m) (auto simp add: map_delete_def fun_eq_iff)

lemma set_map_set: "set (map_set k v m) \<subseteq> insert (k, v) (set m)"
  by (induction m) auto

lemma set_map_set_distinct:
  "distinct (map fst m) \<Longrightarrow> set (map_set k v m) \<subseteq> insert (k, v) {p \<in> set m. fst p \<noteq> k}"
  by (induction m) (auto simp add: rev_image_eqI)




lemma distinct_snd_map_delete: "distinct (map snd m) \<Longrightarrow> distinct (map snd (map_delete k m))"
  by (simp add: map_delete_def distinct_map_filter)


lemma map_delete_map_set: "map_delete k (map_set k v m) = map_delete k m"
  by (induction m) (auto simp add: map_delete_def)


subsection \<open>Registration\<close>

lemmas monitor_eval =
  addPayment_def emit_def map_get_def map_has_def set_add_def start_def newMonitor_def
  checkSinglePayment_def checkSinglePayment_begin_def checkSinglePayment_resume_def
  checkSinglePayment_try_def expirePayment_def handlePaymentSuccess_def removePayment_def
  map_delete_def set_delete_def Let_def

text \<open>
  C2 (amended). \<open>addPayment\<close> never fails. Whether or not the fingerprint is already
  registered, afterwards it is registered with a new entry that has check counter zero,
  status \<open>MONITORING\<close>, the given session and the new start time, the fingerprint is in
  that session's index, and one \<open>payment_added\<close> event was emitted; an entry that was
  registered under the fingerprint before is replaced.
\<close>

theorem addPayment_registers:
  "(case map_get (activeMonitors (addPayment tStart tLast pd sessionId s)) (pd_md5Hash pd) of
      None \<Rightarrow> False
    | Some r \<Rightarrow>
        r = nextRef s \<and>
        objects (addPayment tStart tLast pd sessionId s) r =
          \<lparr>mi_md5Hash = pd_md5Hash pd, mi_billNumber = pd_billNumber pd,
           mi_amount = pd_amount pd, mi_currency = pd_currency pd,
           mi_storeLabel = pd_storeLabel pd, mi_sessionId = sessionId,
           mi_startTime = tStart, mi_lastCheck = tLast, mi_checkCount = 0,
           mi_status = js ''MONITORING'',
           mi_qrCode = take 50 (pd_qrCode pd) @ js ''...''\<rparr>) \<and>
   (case map_get (userSessions (addPayment tStart tLast pd sessionId s)) sessionId of
      None \<Rightarrow> False
    | Some payments \<Rightarrow> pd_md5Hash pd \<in> set payments) \<and>
   emitted (addPayment tStart tLast pd sessionId s) =
     emitted s @ [payment_added (objects (addPayment tStart tLast pd sessionId s) (nextRef s))]"
  by (auto simp add: addPayment_def emit_def map_get_def map_has_def set_add_def Let_def
      map_of_map_set split: option.splits)

text \<open>
  Registering a fingerprint that is registered, with one check counted: no error, and the
  entry is not the one that was there; its counter is back to zero and its start time new.
\<close>

theorem addPayment_duplicate_counterexample:
  "map_get (activeMonitors (fst (checkSinglePayment_begin 2000 (pd_md5Hash pd0) 0 watching)))
     (pd_md5Hash pd0) = Some 0 \<and>
   mi_checkCount (objects (fst (checkSinglePayment_begin 2000 (pd_md5Hash pd0) 0 watching)) 0) = 1 \<and>
   map_get (activeMonitors (addPayment 3000 3000 pd0 (js ''sess1'')
     (fst (checkSinglePayment_begin 2000 (pd_md5Hash pd0) 0 watching)))) (pd_md5Hash pd0) = Some 1 \<and>
   mi_checkCount (objects (addPayment 3000 3000 pd0 (js ''sess1'')
     (fst (checkSinglePayment_begin 2000 (pd_md5Hash pd0) 0 watching))) 1) = 0 \<and>
   mi_startTime (objects (addPayment 3000 3000 pd0 (js ''sess1'')
     (fst (checkSinglePayment_begin 2000 (pd_md5Hash pd0) 0 watching))) 1) = 3000"
  by (simp add: watching_def pd0_def monitor_eval)


theorem addPayment_registers_witness:
  "map_get (activeMonitors watching) (pd_md5Hash pd0) = Some 0 \<and>
   mi_checkCount (objects watching 0) = 0 \<and>
   mi_status (objects watching 0) = js ''MONITORING'' \<and>
   map_get (userSessions watching) (js ''sess1'') = Some [pd_md5Hash pd0]"
  using addPayment_registers [where tStart = 1000 and tLast = 1000 and pd = pd0
      and sessionId = "js ''sess1''" and s = "start newMonitor"]
  by (simp add: watching_def pd0_def monitor_eval)

subsection \<open>Removing an entry\<close>

lemma removePayment_unregistered:
  "map_get (activeMonitors (removePayment h s)) h = None"
  by (simp add: removePayment_def map_get_def map_of_map_delete Let_def split: option.splits)

lemma removePayment_queue:
  "map_get (paymentQueue s) h = None \<or> map_get (activeMonitors s) h \<noteq> None \<Longrightarrow>
   map_get (paymentQueue (removePayment h s)) h = None"
  by (auto simp add: removePayment_def map_get_def map_of_map_delete Let_def split: option.splits)


lemma removePayment_fields [simp]:
  "objects (removePayment h s) = objects s"
  "emitted (removePayment h s) = emitted s"
  "statusChecks (removePayment h s) = statusChecks s"
  "maxMonitorTime (removePayment h s) = maxMonitorTime s"
  "nextRef (removePayment h s) = nextRef s"
  "isRunning (removePayment h s) = isRunning s"
  by (simp_all add: removePayment_def Let_def split: option.splits)

lemma removePayment_entries:
  "set (activeMonitors (removePayment h s)) \<subseteq> set (activeMonitors s)"
  by (auto simp add: removePayment_def map_delete_def Let_def split: option.splits)





lemma removePayment_leaves_no_session:
  assumes reg: "map_get (activeMonitors s) h = Some r"
    and own: "ownedOnlyBy s h (mi_sessionId (objects s r))"
    and dist: "distinct (map fst (userSessions s))"
  shows "inNoSession (removePayment h s) h"
proof (cases "map_get (userSessions s) (mi_sessionId (objects s r))")
  case None
  have "h \<notin> set payments" if "(sid, payments) \<in> set (userSessions s)" for sid payments
  proof
    assume "h \<in> set payments"
    with own that have "sid = mi_sessionId (objects s r)"
      by (auto simp add: ownedOnlyBy_def list_all_iff)
    with that have "mi_sessionId (objects s r) \<in> fst ` set (userSessions s)"
      by force
    with None show False
      by (simp add: map_get_def map_of_eq_None_iff)
  qed
  then have "inNoSession s h"
    by (auto simp add: inNoSession_def list_all_iff)
  with reg None show ?thesis
    by (simp add: removePayment_def Let_def inNoSession_def)
next
  case (Some payments)
  let ?sid = "mi_sessionId (objects s r)"
  have rest: "h \<notin> set ps" if "(sid, ps) \<in> set (userSessions s)" "sid \<noteq> ?sid" for sid ps
    using own that by (auto simp add: ownedOnlyBy_def list_all_iff)
  have "h \<notin> set ps"
    if "(sid, ps) \<in> set (map_set ?sid (removeAll h payments) (userSessions s))" for sid ps
  proof -
    from that set_map_set_distinct [OF dist, of ?sid "removeAll h payments"]
    have "(sid, ps) = (?sid, removeAll h payments) \<or> ((sid, ps) \<in> set (userSessions s) \<and> sid \<noteq> ?sid)"
      by auto
    then show ?thesis
      using rest by auto
  qed
  then have "list_all (\<lambda>(sid, ps). h \<notin> set ps)
      (map_set ?sid (removeAll h payments) (userSessions s))"
    by (auto simp add: list_all_iff)
  moreover have "list_all (\<lambda>(sid, ps). h \<notin> set ps) (map_delete ?sid (userSessions s))"
    using rest by (auto simp add: list_all_iff map_delete_def)
  ultimately show ?thesis
    using reg Some
    by (simp add: removePayment_def Let_def set_delete_def inNoSession_def map_delete_map_set)
qed

subsection \<open>Expiry\<close>

lemma expired_begin:
  assumes "now - mi_startTime (objects s r) > maxMonitorTime s"
  shows "checkSinglePayment_begin now h r s =
           (emit (payment_expired h (objects s r) (maxMonitorTime s)) (removePayment h s), False)"
  using assms by (simp add: checkSinglePayment_begin_def expirePayment_def Let_def)

text \<open>
  C8 (amended). For every registered entry whose time since creation exceeds the maximum
  watch duration, the handling of that entry emits one expiry notification carrying the
  entry, and removes the entry from the active monitors and the payment queue (and from
  the session index, when the index lists it under its own session only), without
  calling the payment service and without changing the entry object: the check counter
  is not incremented, and the status field is left as it was, not set to \<open>EXPIRED\<close>.
\<close>

theorem expired_entry_handling:
  assumes "map_get (activeMonitors s) h = Some r"
    and "now - mi_startTime (objects s r) > maxMonitorTime s"
  shows "checkSinglePayment_begin now h r s = (checkSinglePayment now oc now' h r s, False) \<and>
         map_get (activeMonitors (checkSinglePayment now oc now' h r s)) h = None \<and>
         map_get (paymentQueue (checkSinglePayment now oc now' h r s)) h = None \<and>
         emitted (checkSinglePayment now oc now' h r s) =
           emitted s @ [payment_expired h (objects s r) (maxMonitorTime s)] \<and>
         statusChecks (checkSinglePayment now oc now' h r s) = statusChecks s \<and>
         objects (checkSinglePayment now oc now' h r s) = objects s \<and>
         (distinct (map fst (userSessions s)) \<and> ownedOnlyBy s h (mi_sessionId (objects s r)) \<longrightarrow>
            inNoSession (checkSinglePayment now oc now' h r s) h)"
proof -
  have c: "checkSinglePayment now oc now' h r s =
      emit (payment_expired h (objects s r) (maxMonitorTime s)) (removePayment h s)"
    using assms(2) by (simp add: checkSinglePayment_def expired_begin)
  have "inNoSession (removePayment h s) h"
    if "distinct (map fst (userSessions s))" "ownedOnlyBy s h (mi_sessionId (objects s r))"
    using removePayment_leaves_no_session [OF assms(1) that(2) that(1)] .
  then show ?thesis
    using assms removePayment_unregistered [of h s] removePayment_queue [of s h]
    by (simp add: c expired_begin emit_def inNoSession_def)
qed

theorem expired_entry_handling_witness:
  "map_get (activeMonitors watching) (pd_md5Hash pd0) = Some 0 \<and>
   1801001 - mi_startTime (objects watching 0) > maxMonitorTime watching \<and>
   distinct (map fst (userSessions watching)) \<and>
   ownedOnlyBy watching (pd_md5Hash pd0) (mi_sessionId (objects watching 0)) \<and>
   activeMonitors (checkSinglePayment 1801001 (Resolved paidResult) 1801002 (pd_md5Hash pd0) 0 watching) = [] \<and>
   userSessions (checkSinglePayment 1801001 (Resolved paidResult) 1801002 (pd_md5Hash pd0) 0 watching) = [] \<and>
   statusChecks (checkSinglePayment 1801001 (Resolved paidResult) 1801002 (pd_md5Hash pd0) 0 watching) = [] \<and>
   mi_checkCount (objects (checkSinglePayment 1801001 (Resolved paidResult) 1801002 (pd_md5Hash pd0) 0 watching) 0) = 0"
proof -
  have a: "map_get (activeMonitors watching) (pd_md5Hash pd0) = Some 0"
    by (simp add: watching_def pd0_def monitor_eval)
  have b: "1801001 - mi_startTime (objects watching 0) > maxMonitorTime watching"
    by (simp add: watching_def pd0_def monitor_eval)
  have c: "distinct (map fst (userSessions watching)) \<and>
      ownedOnlyBy watching (pd_md5Hash pd0) (mi_sessionId (objects watching 0))"
    by (simp add: watching_def pd0_def monitor_eval ownedOnlyBy_def)
  show ?thesis
    using expired_entry_handling [OF a b, of "Resolved paidResult" 1801002] a b c
    by (simp add: watching_def pd0_def monitor_eval ownedOnlyBy_def)
qed

text \<open>After the expiry the entry's status, in the object and in the event, is still
  \<open>MONITORING\<close>; no step writes \<open>EXPIRED\<close>.\<close>

theorem expired_status_counterexample:
  "emitted (checkSinglePayment 1801001 (Resolved paidResult) 1801002 (pd_md5Hash pd0) 0 watching) =
     [payment_added (objects watching 0),
      payment_expired (pd_md5Hash pd0) (objects watching 0) 1800000] \<and>
   mi_status (objects watching 0) = js ''MONITORING'' \<and>
   mi_status (objects (checkSinglePayment 1801001 (Resolved paidResult) 1801002 (pd_md5Hash pd0) 0 watching) 0)
     \<noteq> js ''EXPIRED''"
  by (simp add: watching_def pd0_def monitor_eval js_def)

subsection \<open>An inconclusive check\<close>

text \<open>
  C9 (amended). For every entry that is not expired and whose status check returns a
  result other than \<open>PAID\<close>, or throws, the single-entry check calls the payment service
  once, increments the entry's check counter, sets its last-check time, keeps the entry
  registered, emits nothing and returns normally: a thrown error is caught. The status
  field is overwritten with the status of the returned result (for instance \<open>UNPAID\<close>),
  and is left as it was when the check throws.
\<close>

theorem inconclusive_check:
  assumes "now - mi_startTime (objects s r) \<le> maxMonitorTime s"
    and "case oc of Resolved result \<Rightarrow> cr_status result \<noteq> js ''PAID'' | Rejected msg \<Rightarrow> True"
  shows "objects (checkSinglePayment now oc now' h r s) =
           (objects s)(r := (objects s r)
              \<lparr>mi_checkCount := mi_checkCount (objects s r) + 1,
               mi_lastCheck := now,
               mi_status := (case oc of Resolved result \<Rightarrow> cr_status result
                             | Rejected msg \<Rightarrow> mi_status (objects s r))\<rparr>) \<and>
         activeMonitors (checkSinglePayment now oc now' h r s) = activeMonitors s \<and>
         userSessions (checkSinglePayment now oc now' h r s) = userSessions s \<and>
         paymentQueue (checkSinglePayment now oc now' h r s) = paymentQueue s \<and>
         emitted (checkSinglePayment now oc now' h r s) = emitted s \<and>
         statusChecks (checkSinglePayment now oc now' h r s) = statusChecks s @ [h] \<and>
         (case oc of
            Resolved result \<Rightarrow> True
          | Rejected msg \<Rightarrow>
              checkSinglePayment_try now' oc h r (fst (checkSinglePayment_begin now h r s)) = Inl msg)"
  using assms
  by (cases oc)
     (simp_all add: checkSinglePayment_def checkSinglePayment_begin_def
        checkSinglePayment_resume_def checkSinglePayment_try_def Let_def)

theorem inconclusive_check_witness:
  "2000 - mi_startTime (objects watching 0) \<le> maxMonitorTime watching \<and>
   mi_checkCount (objects (checkSinglePayment 2000 (Resolved unpaidResult) 2300 (pd_md5Hash pd0) 0 watching) 0) = 1 \<and>
   mi_lastCheck (objects (checkSinglePayment 2000 (Resolved unpaidResult) 2300 (pd_md5Hash pd0) 0 watching) 0) = 2000 \<and>
   mi_status (objects (checkSinglePayment 2000 (Resolved unpaidResult) 2300 (pd_md5Hash pd0) 0 watching) 0) = js ''UNPAID'' \<and>
   mi_checkCount (objects (checkSinglePayment 2000 (Rejected (js ''timeout'')) 2300 (pd_md5Hash pd0) 0 watching) 0) = 1 \<and>
   mi_status (objects (checkSinglePayment 2000 (Rejected (js ''timeout'')) 2300 (pd_md5Hash pd0) 0 watching) 0) = js ''MONITORING'' \<and>
   activeMonitors (checkSinglePayment 2000 (Rejected (js ''timeout'')) 2300 (pd_md5Hash pd0) 0 watching) =
     [(pd_md5Hash pd0, 0)]"
proof -
  have a: "2000 - mi_startTime (objects watching 0) \<le> maxMonitorTime watching"
    by (simp add: watching_def pd0_def monitor_eval)
  have b: "case Resolved unpaidResult of Resolved result \<Rightarrow> cr_status result \<noteq> js ''PAID''
      | Rejected msg \<Rightarrow> True"
    by (simp add: unpaidResult_def js_def)
  have c: "case Rejected (js ''timeout'') of Resolved result \<Rightarrow> cr_status result \<noteq> js ''PAID''
      | Rejected msg \<Rightarrow> True"
    by simp
  have w: "activeMonitors watching = [(pd_md5Hash pd0, 0)]"
    "mi_status (objects watching 0) = js ''MONITORING''"
    "mi_checkCount (objects watching 0) = 0"
    by (simp_all add: watching_def pd0_def monitor_eval)
  show ?thesis
    using inconclusive_check [OF a b, of 2300 "pd_md5Hash pd0"]
      inconclusive_check [OF a c, of 2300 "pd_md5Hash pd0"] a
    by (simp add: w unpaidResult_def)
qed

text \<open>After a check that answers \<open>UNPAID\<close> the entry's status is \<open>UNPAID\<close>, not
  \<open>MONITORING\<close>.\<close>

theorem inconclusive_status_counterexample:
  "mi_status (objects watching 0) = js ''MONITORING'' \<and>
   mi_status (objects (checkSinglePayment 2000 (Resolved unpaidResult) 2300 (pd_md5Hash pd0) 0 watching) 0)
     = js ''UNPAID'' \<and>
   js ''UNPAID'' \<noteq> js ''MONITORING''"
  by (simp add: watching_def pd0_def unpaidResult_def monitor_eval js_def)

subsection \<open>No registered entry is \<open>PAID\<close>\<close>

lemma js_MONITORING_not_PAID: "js ''MONITORING'' \<noteq> js ''PAID''"
  by (simp add: js_def)

lemma not_paid_new: "list_all (\<lambda>e. mi_status (objects newMonitor (snd e)) \<noteq> js ''PAID'')
    (activeMonitors newMonitor)"
  by (simp add: newMonitor_def)

lemma not_paid_add:
  assumes "list_all (\<lambda>e. mi_status (objects s (snd e)) \<noteq> js ''PAID'') (activeMonitors s)"
  shows "list_all (\<lambda>e. mi_status (objects (addPayment tStart tLast pd sessionId s) (snd e)) \<noteq> js ''PAID'')
    (activeMonitors (addPayment tStart tLast pd sessionId s))"
proof -
  have o: "objects (addPayment tStart tLast pd sessionId s) =
      (objects s)(nextRef s := objects (addPayment tStart tLast pd sessionId s) (nextRef s))"
    "mi_status (objects (addPayment tStart tLast pd sessionId s) (nextRef s)) = js ''MONITORING''"
    "activeMonitors (addPayment tStart tLast pd sessionId s) =
       map_set (pd_md5Hash pd) (nextRef s) (activeMonitors s)"
    by (simp_all add: addPayment_def emit_def Let_def split: option.splits)
  have "mi_status (objects (addPayment tStart tLast pd sessionId s) (snd e)) \<noteq> js ''PAID''"
    if "e \<in> insert (pd_md5Hash pd, nextRef s) (set (activeMonitors s))" for e
  proof (cases "snd e = nextRef s")
    case True
    then show ?thesis
      by (simp add: o(2) js_MONITORING_not_PAID)
  next
    case False
    with that have "e \<in> set (activeMonitors s)"
      by auto
    with assms have "mi_status (objects s (snd e)) \<noteq> js ''PAID''"
      by (simp add: list_all_iff)
    with False show ?thesis
      by (subst o(1)) simp
  qed
  then have "\<forall>e \<in> set (map_set (pd_md5Hash pd) (nextRef s) (activeMonitors s)).
      mi_status (objects (addPayment tStart tLast pd sessionId s) (snd e)) \<noteq> js ''PAID''"
    using set_map_set [of "pd_md5Hash pd" "nextRef s" "activeMonitors s"] by blast
  then show ?thesis
    unfolding o(3) by (simp only: list_all_iff)
qed

lemma not_paid_remove:
  assumes "list_all (\<lambda>e. mi_status (objects s (snd e)) \<noteq> js ''PAID'') (activeMonitors s)"
  shows "list_all (\<lambda>e. mi_status (objects (removePayment h s) (snd e)) \<noteq> js ''PAID'')
    (activeMonitors (removePayment h s))"
  using assms removePayment_entries [of h s] by (auto simp add: list_all_iff)

lemma not_paid_begin:
  assumes "list_all (\<lambda>e. mi_status (objects s (snd e)) \<noteq> js ''PAID'') (activeMonitors s)"
  shows "list_all (\<lambda>e. mi_status (objects (fst (checkSinglePayment_begin now h r s)) (snd e)) \<noteq> js ''PAID'')
    (activeMonitors (fst (checkSinglePayment_begin now h r s)))"
proof (cases "now - mi_startTime (objects s r) > maxMonitorTime s")
  case True
  then show ?thesis
    using not_paid_remove [OF assms, of h] by (simp add: expired_begin emit_def)
next
  case False
  then show ?thesis
    using assms by (auto simp add: checkSinglePayment_begin_def Let_def list_all_iff)
qed

lemma not_paid_resume:
  assumes "list_all (\<lambda>e. mi_status (objects s (snd e)) \<noteq> js ''PAID'') (activeMonitors s)"
  shows "list_all (\<lambda>e. mi_status (objects (checkSinglePayment_resume now oc h r s) (snd e)) \<noteq> js ''PAID'')
    (activeMonitors (checkSinglePayment_resume now oc h r s))"
proof (cases oc)
  case (Rejected msg)
  then show ?thesis
    using assms by (simp add: checkSinglePayment_resume_def checkSinglePayment_try_def)
next
  case (Resolved result)
  show ?thesis
  proof (cases "cr_status result = js ''PAID''")
    case True
    with Resolved show ?thesis
      using not_paid_remove [OF assms, of h]
      by (simp add: checkSinglePayment_resume_def checkSinglePayment_try_def
          handlePaymentSuccess_def emit_def Let_def)
  next
    case False
    with Resolved show ?thesis
      using assms
      by (auto simp add: checkSinglePayment_resume_def checkSinglePayment_try_def list_all_iff)
  qed
qed

lemma not_paid_reachable:
  "reachable s \<Longrightarrow>
   list_all (\<lambda>e. mi_status (objects s (snd e)) \<noteq> js ''PAID'') (activeMonitors s)"
proof (induction rule: reachable.induct)
  case reach_new
  show ?case by (rule not_paid_new)
next
  case (reach_start s)
  then show ?case by (simp add: start_def)
next
  case (reach_stop s)
  show ?case by (simp add: stop_def)
next
  case (reach_add s tStart tLast pd sessionId)
  then show ?case by (simp add: not_paid_add)
next
  case (reach_remove s md5Hash)
  then show ?case using not_paid_remove [of s md5Hash] by simp
next
  case (reach_begin s md5Hash r now)
  then show ?case by (simp add: not_paid_begin)
next
  case (reach_resume s r now oc md5Hash)
  then show ?case by (simp add: not_paid_resume)
qed

lemma resume_paid:
  "cr_status result = js ''PAID'' \<Longrightarrow>
   checkSinglePayment_resume now (Resolved result) h r s =
     emit (payment_success h (objects s r) result (now - mi_startTime (objects s r)))
       (removePayment h s)"
  by (simp add: checkSinglePayment_resume_def checkSinglePayment_try_def
      handlePaymentSuccess_def Let_def)

text \<open>
  C10. In every state the monitor can reach, no entry of the active monitor registry has
  status \<open>PAID\<close>, and \<open>getCompletedPayments\<close> returns 0. The reasons: a new entry has
  status \<open>MONITORING\<close>, and the second part of a check whose answer is \<open>PAID\<close> removes
  the entry and leaves every entry object as it was.
\<close>

theorem no_paid_entry_registered:
  assumes "reachable s"
  shows "list_all (\<lambda>e. mi_status (objects s (snd e)) \<noteq> js ''PAID'') (activeMonitors s) \<and>
         getCompletedPayments s = 0 \<and>
         mi_status (objects (addPayment tStart tLast pd sessionId s) (nextRef s)) = js ''MONITORING'' \<and>
         (cr_status result = js ''PAID'' \<longrightarrow>
            objects (checkSinglePayment_resume now (Resolved result) h r s) = objects s \<and>
            map_get (activeMonitors (checkSinglePayment_resume now (Resolved result) h r s)) h = None)"
proof -
  have a: "list_all (\<lambda>e. mi_status (objects s (snd e)) \<noteq> js ''PAID'') (activeMonitors s)"
    using assms by (rule not_paid_reachable)
  then have "filter (\<lambda>m. mi_status m = js ''PAID'') (map (\<lambda>(h, r). objects s r) (activeMonitors s)) = []"
    by (auto simp add: filter_empty_conv list_all_iff)
  then have b: "getCompletedPayments s = 0"
    by (simp add: getCompletedPayments_def)
  have c: "mi_status (objects (addPayment tStart tLast pd sessionId s) (nextRef s)) = js ''MONITORING''"
    by (simp add: addPayment_def emit_def Let_def split: option.splits)
  show ?thesis
    using a b c removePayment_unregistered [of h s]
    by (simp add: resume_paid emit_def)
qed

theorem no_paid_entry_registered_witness:
  "reachable (checkSinglePayment 2000 (Resolved unpaidResult) 2300 (pd_md5Hash pd0) 0 watching) \<and>
   activeMonitors (checkSinglePayment 2000 (Resolved unpaidResult) 2300 (pd_md5Hash pd0) 0 watching) =
     [(pd_md5Hash pd0, 0)] \<and>
   mi_status (objects (checkSinglePayment 2000 (Resolved unpaidResult) 2300 (pd_md5Hash pd0) 0 watching) 0) =
     js ''UNPAID'' \<and>
   getCompletedPayments (checkSinglePayment 2000 (Resolved unpaidResult) 2300 (pd_md5Hash pd0) 0 watching) = 0"
proof -
  have w: "reachable watching"
    unfolding watching_def by (intro reach_add reach_start reach_new)
  have g: "map_get (activeMonitors watching) (pd_md5Hash pd0) = Some 0"
    by (simp add: watching_def pd0_def monitor_eval)
  have n: "0 < nextRef (fst (checkSinglePayment_begin 2000 (pd_md5Hash pd0) 0 watching))"
    by (simp add: watching_def pd0_def monitor_eval)
  have e: "checkSinglePayment 2000 (Resolved unpaidResult) 2300 (pd_md5Hash pd0) 0 watching =
      checkSinglePayment_resume 2300 (Resolved unpaidResult) (pd_md5Hash pd0) 0
        (fst (checkSinglePayment_begin 2000 (pd_md5Hash pd0) 0 watching))"
    by (simp add: watching_def pd0_def monitor_eval)
  have r: "reachable (checkSinglePayment 2000 (Resolved unpaidResult) 2300 (pd_md5Hash pd0) 0 watching)"
    unfolding e by (rule reach_resume [OF reach_begin [OF w g] n])
  have v: "activeMonitors (checkSinglePayment 2000 (Resolved unpaidResult) 2300 (pd_md5Hash pd0) 0 watching) =
      [(pd_md5Hash pd0, 0)]"
    "mi_status (objects (checkSinglePayment 2000 (Resolved unpaidResult) 2300 (pd_md5Hash pd0) 0 watching) 0) =
      js ''UNPAID''"
    by (simp_all add: watching_def pd0_def unpaidResult_def monitor_eval js_def)
  show ?thesis
    using no_paid_entry_registered [OF r] r v by simp
qed

subsection \<open>One tick with a \<open>PAID\<close> answer\<close>

lemma not_success_expired [simp]: "\<not> isSuccessFor k (payment_expired h info d)"
  by (simp add: isSuccessFor_def)

lemma not_success_added [simp]: "\<not> isSuccessFor k (payment_added info)"
  by (simp add: isSuccessFor_def)

lemma success_for [simp]: "isSuccessFor k (payment_success h info result d) = (h = k)"
  by (simp add: isSuccessFor_def)


















section \<open>The codec: the field sequence\<close>

subsection \<open>The order of the fields\<close>



















end
